theory Spec2Isabelle
  imports Complex_Main
begin

section \<open>JavaScript numbers\<close>

text \<open>
  The program computes with JavaScript numbers.  A number is either finite or one of the
  three special values \<open>Infinity\<close>, \<open>-Infinity\<close> and \<open>NaN\<close>.  Finite values are
  modelled as reals, and the special values and the way they propagate are kept.  The
  operations below are exact on finite operands and leave out the sign of zero; the
  rounding of doubles is modelled separately, further down, and applied where a
  property depends on it.
\<close>

datatype jsnum = Fin real | PInf | NInf | NaN

fun isFinite :: "jsnum \<Rightarrow> bool" where
  "isFinite (Fin r) = True"
| "isFinite PInf = False"
| "isFinite NInf = False"
| "isFinite NaN = False"

fun isNaN :: "jsnum \<Rightarrow> bool" where
  "isNaN NaN = True"
| "isNaN (Fin r) = False"
| "isNaN PInf = False"
| "isNaN NInf = False"

text \<open>Truthiness of a number: \<open>0\<close> and \<open>NaN\<close> are falsy, everything else is truthy.\<close>

fun num_truthy :: "jsnum \<Rightarrow> bool" where
  "num_truthy (Fin r) = (r \<noteq> 0)"
| "num_truthy NaN = False"
| "num_truthy PInf = True"
| "num_truthy NInf = True"

fun js_neg :: "jsnum \<Rightarrow> jsnum" where
  "js_neg (Fin r) = Fin (- r)"
| "js_neg PInf = NInf"
| "js_neg NInf = PInf"
| "js_neg NaN = NaN"

fun js_add :: "jsnum \<Rightarrow> jsnum \<Rightarrow> jsnum" where
  "js_add NaN b = NaN"
| "js_add a NaN = NaN"
| "js_add (Fin a) (Fin b) = Fin (a + b)"
| "js_add (Fin a) PInf = PInf"
| "js_add (Fin a) NInf = NInf"
| "js_add PInf (Fin b) = PInf"
| "js_add NInf (Fin b) = NInf"
| "js_add PInf PInf = PInf"
| "js_add NInf NInf = NInf"
| "js_add PInf NInf = NaN"
| "js_add NInf PInf = NaN"

definition js_sub :: "jsnum \<Rightarrow> jsnum \<Rightarrow> jsnum" where
  "js_sub a b = js_add a (js_neg b)"

text \<open>The sign of an infinite product or quotient, given the sign of the finite factor.\<close>

definition signed_inf :: "bool \<Rightarrow> jsnum" where
  "signed_inf positive = (if positive then PInf else NInf)"

fun js_mul :: "jsnum \<Rightarrow> jsnum \<Rightarrow> jsnum" where
  "js_mul NaN b = NaN"
| "js_mul a NaN = NaN"
| "js_mul (Fin a) (Fin b) = Fin (a * b)"
| "js_mul (Fin a) PInf = (if a = 0 then NaN else signed_inf (0 < a))"
| "js_mul (Fin a) NInf = (if a = 0 then NaN else signed_inf (a < 0))"
| "js_mul PInf (Fin b) = (if b = 0 then NaN else signed_inf (0 < b))"
| "js_mul NInf (Fin b) = (if b = 0 then NaN else signed_inf (b < 0))"
| "js_mul PInf PInf = PInf"
| "js_mul NInf NInf = PInf"
| "js_mul PInf NInf = NInf"
| "js_mul NInf PInf = NInf"

text \<open>
  Division: a finite nonzero value over zero is infinite, zero over zero is \<open>NaN\<close>;
  HOL's \<open>a / 0 = 0\<close> is never used.
\<close>

fun js_div :: "jsnum \<Rightarrow> jsnum \<Rightarrow> jsnum" where
  "js_div NaN b = NaN"
| "js_div a NaN = NaN"
| "js_div (Fin a) (Fin b) =
     (if b \<noteq> 0 then Fin (a / b) else if a = 0 then NaN else signed_inf (0 < a))"
| "js_div (Fin a) PInf = Fin 0"
| "js_div (Fin a) NInf = Fin 0"
| "js_div PInf (Fin b) = signed_inf (0 \<le> b)"
| "js_div NInf (Fin b) = signed_inf (b < 0)"
| "js_div PInf PInf = NaN"
| "js_div PInf NInf = NaN"
| "js_div NInf PInf = NaN"
| "js_div NInf NInf = NaN"

fun js_abs :: "jsnum \<Rightarrow> jsnum" where
  "js_abs (Fin r) = Fin \<bar>r\<bar>"
| "js_abs PInf = PInf"
| "js_abs NInf = PInf"
| "js_abs NaN = NaN"

text \<open>The comparison \<open>a < b\<close>; every comparison with \<open>NaN\<close> is false.\<close>

fun js_lt :: "jsnum \<Rightarrow> jsnum \<Rightarrow> bool" where
  "js_lt NaN b = False"
| "js_lt a NaN = False"
| "js_lt (Fin a) (Fin b) = (a < b)"
| "js_lt (Fin a) PInf = True"
| "js_lt (Fin a) NInf = False"
| "js_lt PInf b = False"
| "js_lt NInf NInf = False"
| "js_lt NInf b = True"

section \<open>JavaScript values\<close>

text \<open>
  What an evaluation returns is a number or a value that is not a number: \<open>undefined\<close>,
  a boolean, a Complex, a matrix and so on.  Of a value that is not a number the program
  uses two things only: whether it is truthy (in \<open>!dy\<close> and \<open>dy || 0\<close>) and the number
  it converts to when it meets \<open>isFinite\<close>, \<open>isNaN\<close>, \<open>Math.abs\<close> or an arithmetic
  operator.  \<open>NonNum\<close> carries these two.  \<open>undefined\<close> is \<open>NonNum False NaN\<close>; an
  object such as a Complex is truthy.
\<close>

datatype jsval = Num jsnum | NonNum bool jsnum

fun js_number :: "jsval \<Rightarrow> jsnum" where
  "js_number (Num n) = n"
| "js_number (NonNum t n) = n"

fun js_truthy :: "jsval \<Rightarrow> bool" where
  "js_truthy (Num n) = num_truthy n"
| "js_truthy (NonNum t n) = t"

text \<open>The global functions \<open>isFinite\<close> and \<open>isNaN\<close>, which convert their argument.\<close>

definition js_isFinite :: "jsval \<Rightarrow> bool" where
  "js_isFinite v = isFinite (js_number v)"

definition js_isNaN :: "jsval \<Rightarrow> bool" where
  "js_isNaN v = isNaN (js_number v)"

section \<open>Rounding\<close>

text \<open>
  A double is a real of the form \<open>m * 2^e\<close> with \<open>2^52 \<le> |m| < 2^53\<close>, or zero, and
  every arithmetic operation of the program returns the double nearest to the exact
  result, a tie going to the even \<open>m\<close>.  \<open>binary64\<close> is this rounding, with the range of
  the exponent unbounded: overflow and subnormal numbers are left out.

  A function whose result depends on the rounding takes it as a parameter: \<open>binary64\<close>
  is what the program computes, \<open>exact_arithmetic\<close> is the arithmetic of the reals.
\<close>

definition rne :: "real \<Rightarrow> int" where
  "rne x =
     (let f = \<lfloor>x\<rfloor>; r = x - of_int f in
      if r < 1 / 2 then f
      else if 1 / 2 < r then f + 1
      else if even f then f else f + 1)"

definition exponent64 :: "real \<Rightarrow> int" where
  "exponent64 x = \<lfloor>log 2 \<bar>x\<bar>\<rfloor> - 52"

definition binary64 :: "real \<Rightarrow> real" where
  "binary64 x =
     (if x = 0 then 0
      else of_int (rne (x / 2 powr of_int (exponent64 x))) * 2 powr of_int (exponent64 x))"

type_synonym rounding = "real \<Rightarrow> real"

definition exact_arithmetic :: rounding where
  "exact_arithmetic x = x"

section \<open>The evaluation capability\<close>

text \<open>
  \<open>math.evaluate(expr, {x})\<close> belongs to an external library.  It is a parameter of the
  model: given the expression text and the value bound to \<open>x\<close> it either throws or
  returns a value.
\<close>

datatype js_error = EvaluateError | TypeError

type_synonym evaluator = "string \<Rightarrow> real \<Rightarrow> js_error + jsval"

text \<open>
  An instance of the capability for concrete evaluations.  It knows the expressions
  \<open>x\<close>, \<open>1/x\<close> and \<open>0/x\<close>, which it evaluates with the division above, and the empty
  text, for which it returns \<open>undefined\<close>; it throws on every other text.
\<close>

definition demo_evaluate :: evaluator where
  "demo_evaluate expr x =
     (if expr = [] then Inr (NonNum False NaN)
      else if expr = ''x'' then Inr (Num (Fin x))
      else if expr = ''1/x'' then Inr (Num (js_div (Fin 1) (Fin x)))
      else if expr = ''0/x'' then Inr (Num (js_div (Fin 0) (Fin x)))
      else Inl EvaluateError)"

section \<open>page.tsx: evaluation and sampling\<close>

text \<open>
  \<open>safeEval\<close>: the call of the capability inside \<open>try\<close>, with a \<open>catch\<close> that returns
  \<open>NaN\<close>.  The result is a computation, so that "does not throw" is a statement about it.
\<close>

definition safeEval :: "evaluator \<Rightarrow> string \<Rightarrow> real \<Rightarrow> js_error + jsval" where
  "safeEval ev expr x = (case ev expr x of Inr v \<Rightarrow> Inr v | Inl e \<Rightarrow> Inr (Num NaN))"

text \<open>
  \<open>numericalDerivative\<close>: the central difference; the default step is \<open>0.0001\<close>.  The
  subtraction converts both values to numbers.
\<close>

definition numericalDerivative_h :: real where
  "numericalDerivative_h = 1 / 10000"

definition numericalDerivative :: "evaluator \<Rightarrow> string \<Rightarrow> real \<Rightarrow> real \<Rightarrow> js_error + jsnum" where
  "numericalDerivative ev func x h =
     (case safeEval ev func (x + h) of
        Inl e \<Rightarrow> Inl e
      | Inr a \<Rightarrow>
          (case safeEval ev func (x - h) of
             Inl e \<Rightarrow> Inl e
           | Inr b \<Rightarrow> Inr (js_div (js_sub (js_number a) (js_number b)) (Fin (2 * h)))))"

text \<open>
  \<open>calculatePoints\<close>: the grid \<open>x = range[0] + i * step\<close> for \<open>i = 0 .. numPoints\<close>,
  keeping the points whose value passes \<open>!isNaN(y) && isFinite(y) && Math.abs(y) < 100\<close>.
  The loop runs over the list of indices and appends to \<open>result\<close>.  \<open>numPoints\<close> is
  positive (the program always takes the default, 500).
\<close>

record point =
  pt_x :: real
  pt_y :: jsval

fun calculatePoints_loop ::
  "evaluator \<Rightarrow> string \<Rightarrow> real \<Rightarrow> real \<Rightarrow> nat list \<Rightarrow> point list \<Rightarrow> js_error + point list" where
  "calculatePoints_loop ev func lo step [] result = Inr result"
| "calculatePoints_loop ev func lo step (i # rest) result =
     (let x = lo + real i * step in
      case safeEval ev func x of
        Inl e \<Rightarrow> Inl e
      | Inr y \<Rightarrow>
          if \<not> js_isNaN y \<and> js_isFinite y \<and> js_lt (js_abs (js_number y)) (Fin 100)
          then calculatePoints_loop ev func lo step rest (result @ [\<lparr>pt_x = x, pt_y = y\<rparr>])
          else calculatePoints_loop ev func lo step rest result)"

definition calculatePoints ::
  "evaluator \<Rightarrow> string \<Rightarrow> real \<times> real \<Rightarrow> nat \<Rightarrow> js_error + point list" where
  "calculatePoints ev func rng numPoints =
     (let step = (snd rng - fst rng) / real numPoints
      in calculatePoints_loop ev func (fst rng) step [0..<Suc numPoints] [])"

definition calculatePoints_default :: nat where
  "calculatePoints_default = 500"

section \<open>page.tsx: the component state\<close>

text \<open>
  The state of \<open>DerivativeVisualizer\<close>: the \<open>useState\<close> cells and the two refs the
  functions below read or write.  The display strings \<open>derivedFunction\<close> and
  \<open>errorMessage\<close> are left out.  \<open>zoomLevel\<close> starts at 1 and every handler clamps it
  into \<open>[0.5, 5]\<close>; \<open>animationSpeed\<close> comes from a slider over \<open>[0.5, 3]\<close>: both are
  nonzero reals.
\<close>

datatype tab = Trig | Product | Quotient | Chain | Custom

record pan =
  pan_x :: real
  pan_y :: real

record highlight =
  hl_x :: real
  hl_y :: jsval
  hl_dy :: jsnum

record visualizer =
  activeTab :: tab
  customFunction :: string
  viewRange :: "real \<times> real"
  points :: "point list"
  derivativePoints :: "point list"
  highlighted :: bool
  highlightPoint :: highlight
  svgWidth :: real
  svgHeight :: real
  isAnimating :: bool
  animationProgress :: real
  animationRef :: "real option"
  animationSpeed :: real
  zoomLevel :: real
  panOffset :: pan
  isDragging :: bool

definition initial_state :: visualizer where
  "initial_state =
     \<lparr>activeTab = Trig, customFunction = ''sin(x)'', viewRange = (- 10, 10),
      points = [], derivativePoints = [], highlighted = False,
      highlightPoint = \<lparr>hl_x = 0, hl_y = Num (Fin 0), hl_dy = Fin 0\<rparr>,
      svgWidth = 0, svgHeight = 0, isAnimating = False, animationProgress = 0,
      animationRef = None, animationSpeed = 1, zoomLevel = 1,
      panOffset = \<lparr>pan_x = 0, pan_y = 0\<rparr>, isDragging = False\<rparr>"

definition predefinedFunctions :: "tab \<Rightarrow> (string \<times> string) list" where
  "predefinedFunctions t =
     (case t of
        Trig \<Rightarrow> [(''sin(x)'', ''cos(x)''), (''cos(x)'', ''-sin(x)''), (''tan(x)'', ''sec(x)^2'')]
      | Product \<Rightarrow>
          [(''x * sin(x)'', ''sin(x) + x * cos(x)''),
           (''x^2 * cos(x)'', ''2 * x * cos(x) - x^2 * sin(x)''),
           (''e^x * x'', ''e^x * (x + 1)'')]
      | Quotient \<Rightarrow>
          [(''sin(x) / x'', ''(x * cos(x) - sin(x)) / x^2''),
           (''x / cos(x)'', ''(cos(x) - x * sin(x)) / cos(x)^2''),
           (''(x^2 + 1) / x'', ''(x^2 - 1) / x^2'')]
      | Chain \<Rightarrow>
          [(''sin(x^2)'', ''2 * x * cos(x^2)''),
           (''e^sin(x)'', ''cos(x) * e^sin(x)''),
           (''ln(cos(x))'', ''-tan(x)'')]
      | Custom \<Rightarrow> [(''sin(x)'', ''cos(x)'')])"

subsection \<open>Viewport\<close>

text \<open>
  \<open>getEffectiveViewRange\<close>.  Each of its operations is rounded by \<open>rnd\<close>: nearby zoom
  levels can give the same range in doubles, which they never do over the reals.
\<close>

definition getEffectiveViewRange :: "rounding \<Rightarrow> visualizer \<Rightarrow> real \<times> real" where
  "getEffectiveViewRange rnd s =
     (let rangeWidth = rnd (snd (viewRange s) - fst (viewRange s));
          zoomedWidth = rnd (rangeWidth / zoomLevel s);
          centerX = rnd (rnd (rnd (fst (viewRange s) + snd (viewRange s)) / 2)
                      + pan_x (panOffset s))
      in (rnd (centerX - rnd (zoomedWidth / 2)), rnd (centerX + rnd (zoomedWidth / 2))))"

text \<open>
  \<open>mapToSVG\<close>, in exact arithmetic.  The horizontal scale divides by the width of the
  range, which is zero for a degenerate range, so it is a JavaScript division; the
  vertical coordinate depends on the point's value, which may be any value.
\<close>

record svg_point =
  svg_x :: jsnum
  svg_y :: jsnum

definition mapToSVG :: "visualizer \<Rightarrow> point \<Rightarrow> real \<times> real \<Rightarrow> svg_point" where
  "mapToSVG s point rng =
     (let padding = 40;
          graphWidth = svgWidth s - 2 * padding;
          graphHeight = svgHeight s - 2 * padding;
          xScale = js_div (Fin graphWidth) (Fin (snd rng - fst rng));
          yScale = (graphHeight / 20) * zoomLevel s;
          svgX = js_add (Fin padding) (js_mul (Fin (pt_x point - fst rng)) xScale);
          svgY = js_add (js_sub (Fin (svgHeight s / 2))
                           (js_mul (js_number (pt_y point)) (Fin yScale)))
                   (Fin (pan_y (panOffset s)))
      in \<lparr>svg_x = svgX, svg_y = svgY\<rparr>)"

subsection \<open>Paths\<close>

text \<open>
  \<open>createPath\<close> builds the text \<open>M x y L x y ...\<close>; the model keeps the list of commands
  (the empty list is the empty text).  \<open>points[i]\<close> beyond the end of the array is
  \<open>undefined\<close>, and \<open>mapToSVG\<close> then throws a \<open>TypeError\<close> when it reads \<open>point.x\<close>.
\<close>

datatype svg_cmd = MoveTo svg_point | LineTo svg_point

fun createPath_loop ::
  "visualizer \<Rightarrow> point list \<Rightarrow> real \<times> real \<Rightarrow> nat list \<Rightarrow> svg_cmd list \<Rightarrow> js_error + svg_cmd list" where
  "createPath_loop s pts rng [] path = Inr path"
| "createPath_loop s pts rng (i # rest) path =
     (if i < length pts
      then createPath_loop s pts rng rest (path @ [LineTo (mapToSVG s (pts ! i) rng)])
      else Inl TypeError)"

definition createPath ::
  "visualizer \<Rightarrow> point list \<Rightarrow> real \<times> real \<Rightarrow> bool \<Rightarrow> js_error + svg_cmd list" where
  "createPath s pts rng animated =
     (if length pts = 0 then Inr []
      else if animated then
        (let endIndex = \<lfloor>real (length pts) * animationProgress s\<rfloor> in
         if endIndex \<le> 0 then Inr []
         else createPath_loop s pts rng [1..<Suc (nat endIndex)]
                [MoveTo (mapToSVG s (pts ! 0) rng)])
      else createPath_loop s pts rng [1..<length pts]
             [MoveTo (mapToSVG s (pts ! 0) rng)])"

subsection \<open>Animation\<close>

text \<open>
  One call of \<open>animate\<close>.  \<open>!animationRef.current\<close> holds for \<open>null\<close> and for a stored
  timestamp \<open>0\<close>.  The scheduling of the next frame is outside the model.
\<close>

definition animate :: "real \<Rightarrow> visualizer \<Rightarrow> visualizer" where
  "animate timestamp s =
     (let current = (case animationRef s of
                       None \<Rightarrow> timestamp
                     | Some r \<Rightarrow> if r = 0 then timestamp else r);
          elapsed = timestamp - current;
          newProgress = animationProgress s + elapsed / (5000 / animationSpeed s)
      in s\<lparr>animationProgress := (if newProgress > 1 then 0 else newProgress),
            animationRef := Some timestamp\<rparr>)"

subsection \<open>Recomputing the samples\<close>

text \<open>
  \<open>trim\<close> removes white space at both ends; the characters of the ASCII range that
  count as white space are the blank and the control characters 9 to 13.
\<close>

definition is_js_space :: "char \<Rightarrow> bool" where
  "is_js_space c = (c \<in> set [CHR '' '', CHR 0x09, CHR 0x0A, CHR 0x0B, CHR 0x0C, CHR 0x0D])"

definition js_trim :: "string \<Rightarrow> string" where
  "js_trim str = rev (dropWhile is_js_space (rev (dropWhile is_js_space str)))"

text \<open>The loop of \<open>calculateDerivative\<close> that samples the numerical derivative.\<close>

fun calculateDerivative_derPoints ::
  "evaluator \<Rightarrow> string \<Rightarrow> point list \<Rightarrow> point list \<Rightarrow> js_error + point list" where
  "calculateDerivative_derPoints ev func [] derPoints = Inr derPoints"
| "calculateDerivative_derPoints ev func (p # rest) derPoints =
     (case numericalDerivative ev func (pt_x p) numericalDerivative_h of
        Inl e \<Rightarrow> Inl e
      | Inr dy \<Rightarrow>
          if \<not> isNaN dy \<and> isFinite dy \<and> js_lt (js_abs dy) (Fin 100)
          then calculateDerivative_derPoints ev func rest
                 (derPoints @ [\<lparr>pt_x = pt_x p, pt_y = Num dy\<rparr>])
          else calculateDerivative_derPoints ev func rest derPoints)"

text \<open>
  The body of the \<open>try\<close> block of \<open>calculateDerivative\<close>, as a computation that may
  throw, and \<open>calculateDerivative\<close> itself, whose \<open>catch\<close> clears both sample lists.
  On the custom tab the derivative at 0 is computed for the display string; its value
  \<open>derValue\<close> is not used otherwise.
\<close>

definition calculateDerivative_try ::
  "rounding \<Rightarrow> evaluator \<Rightarrow> visualizer \<Rightarrow> js_error + visualizer" where
  "calculateDerivative_try rnd ev s =
     (if activeTab s = Custom \<and> js_trim (customFunction s) = []
      then Inr (s\<lparr>points := [], derivativePoints := []\<rparr>)
      else
        (case (if activeTab s = Custom
               then numericalDerivative ev (customFunction s) 0 numericalDerivative_h
               else Inr (Fin 0)) of
           Inl e \<Rightarrow> Inl e
         | Inr derValue \<Rightarrow>
             (case calculatePoints ev (customFunction s) (getEffectiveViewRange rnd s)
                     calculatePoints_default of
                Inl e \<Rightarrow> Inl e
              | Inr funcPoints \<Rightarrow>
                  (case calculateDerivative_derPoints ev (customFunction s) funcPoints [] of
                     Inl e \<Rightarrow> Inl e
                   | Inr derPoints \<Rightarrow>
                       Inr (s\<lparr>points := funcPoints, derivativePoints := derPoints\<rparr>)))))"

definition calculateDerivative :: "rounding \<Rightarrow> evaluator \<Rightarrow> visualizer \<Rightarrow> visualizer" where
  "calculateDerivative rnd ev s =
     (case calculateDerivative_try rnd ev s of
        Inr s' \<Rightarrow> s'
      | Inl e \<Rightarrow> s\<lparr>points := [], derivativePoints := []\<rparr>)"

subsection \<open>Handlers\<close>

definition handleRangeChange :: "real \<times> real \<Rightarrow> visualizer \<Rightarrow> visualizer" where
  "handleRangeChange values s = s\<lparr>viewRange := (fst values, snd values)\<rparr>"

definition handleCustomFunctionChange :: "string \<Rightarrow> visualizer \<Rightarrow> visualizer" where
  "handleCustomFunctionChange val s = s\<lparr>customFunction := val\<rparr>"

definition handleFunctionChange :: "string \<Rightarrow> visualizer \<Rightarrow> visualizer" where
  "handleFunctionChange val s =
     (case find (\<lambda>f. fst f = val) (predefinedFunctions (activeTab s)) of
        Some selectedFunc \<Rightarrow> s\<lparr>customFunction := fst selectedFunc\<rparr>
      | None \<Rightarrow> s)"

text \<open>
  \<open>handleTabChange\<close> sets the tab and the expression and then calls
  \<open>calculateDerivative\<close>, which still sees the state of the current render.
\<close>

definition handleTabChange ::
  "rounding \<Rightarrow> evaluator \<Rightarrow> tab \<Rightarrow> visualizer \<Rightarrow> visualizer" where
  "handleTabChange rnd ev val s =
     (let stale = calculateDerivative rnd ev s
      in s\<lparr>activeTab := val,
            customFunction := (if val \<noteq> Custom then fst (predefinedFunctions val ! 0) else []),
            points := points stale,
            derivativePoints := derivativePoints stale\<rparr>)"

text \<open>
  The zoom handlers.  The literals \<open>0.1\<close> and \<open>-0.1\<close> are the doubles nearest to these
  decimals, and the sum is rounded; \<open>0.5\<close>, \<open>5\<close> and \<open>0.25\<close> are doubles.
\<close>

definition handleWheel :: "rounding \<Rightarrow> real \<Rightarrow> visualizer \<Rightarrow> visualizer" where
  "handleWheel rnd deltaY s =
     (let delta = (if deltaY > 0 then - rnd (1 / 10) else rnd (1 / 10));
          newZoom = max (1 / 2) (min 5 (rnd (zoomLevel s + delta)))
      in s\<lparr>zoomLevel := newZoom\<rparr>)"

definition handleZoomIn :: "rounding \<Rightarrow> visualizer \<Rightarrow> visualizer" where
  "handleZoomIn rnd s = s\<lparr>zoomLevel := min 5 (rnd (zoomLevel s + 1 / 4))\<rparr>"

definition handleZoomOut :: "rounding \<Rightarrow> visualizer \<Rightarrow> visualizer" where
  "handleZoomOut rnd s = s\<lparr>zoomLevel := max (1 / 2) (rnd (zoomLevel s - 1 / 4))\<rparr>"

definition handleResetView :: "visualizer \<Rightarrow> visualizer" where
  "handleResetView s = s\<lparr>zoomLevel := 1, panOffset := \<lparr>pan_x = 0, pan_y = 0\<rparr>\<rparr>"

text \<open>
  The effect with the dependency list \<open>[customFunction, viewRange, activeTab, zoomLevel,
  panOffset]\<close>: after a render in which one of them differs from the previous render,
  \<open>calculateDerivative\<close> runs.  No other effect or handler is triggered by such a change.
\<close>

definition effect_dependencies ::
  "visualizer \<Rightarrow> string \<times> (real \<times> real) \<times> tab \<times> real \<times> pan" where
  "effect_dependencies s = (customFunction s, viewRange s, activeTab s, zoomLevel s, panOffset s)"

definition useEffect_recalculate ::
  "rounding \<Rightarrow> evaluator \<Rightarrow> visualizer \<Rightarrow> visualizer \<Rightarrow> visualizer" where
  "useEffect_recalculate rnd ev before after =
     (if effect_dependencies after = effect_dependencies before then after
      else calculateDerivative rnd ev after)"

text \<open>
  \<open>handleMouseMove\<close>, with \<open>mouseX\<close> the pointer's offset from the left edge of the
  drawing.  \<open>handleMouseMove_x\<close> is its local \<open>x\<close>, the inverse of the horizontal half of
  \<open>mapToSVG\<close>; the comparison with the range is false unless \<open>x\<close> is finite.  The
  value and the derivative at \<open>x\<close> are stored as they come, without a test.
\<close>

definition handleMouseMove_x :: "rounding \<Rightarrow> visualizer \<Rightarrow> real \<Rightarrow> jsnum" where
  "handleMouseMove_x rnd s mouseX =
     (let padding = 40;
          graphWidth = svgWidth s - 2 * padding;
          rng = getEffectiveViewRange rnd s;
          xScale = js_div (Fin graphWidth) (Fin (snd rng - fst rng))
      in js_add (Fin (fst rng)) (js_div (Fin (mouseX - padding)) xScale))"

definition handleMouseMove ::
  "rounding \<Rightarrow> evaluator \<Rightarrow> real \<Rightarrow> visualizer \<Rightarrow> js_error + visualizer" where
  "handleMouseMove rnd ev mouseX s =
     (if length (points s) = 0 \<or> isDragging s then Inr s
      else
        (case handleMouseMove_x rnd s mouseX of
           Fin x \<Rightarrow>
             if fst (getEffectiveViewRange rnd s) \<le> x \<and> x \<le> snd (getEffectiveViewRange rnd s)
             then
               (case safeEval ev (customFunction s) x of
                  Inl e \<Rightarrow> Inl e
                | Inr y \<Rightarrow>
                    (case numericalDerivative ev (customFunction s) x numericalDerivative_h of
                       Inl e \<Rightarrow> Inl e
                     | Inr dy \<Rightarrow>
                         Inr (s\<lparr>highlighted := True,
                                highlightPoint := \<lparr>hl_x = x, hl_y = y, hl_dy = dy\<rparr>\<rparr>)))
             else Inr s
         | PInf \<Rightarrow> Inr s
         | NInf \<Rightarrow> Inr s
         | NaN \<Rightarrow> Inr s))"

text \<open>
  The tangent segment drawn at the highlighted point: the two end points, two units to
  each side, on the line through the point with slope \<open>dy\<close>.  It is drawn only while a
  point is highlighted and no animation runs.  The subtraction in \<open>y1\<close> converts the
  value to a number.  The \<open>+\<close> in \<open>y2\<close> adds numbers when the value is a number; for
  a value that is not a number it may concatenate texts instead, and the second end
  point is then outside this model: it is \<open>None\<close>.
\<close>

definition tangentSegment ::
  "rounding \<Rightarrow> visualizer \<Rightarrow> (svg_point \<times> svg_point option) option" where
  "tangentSegment rnd s =
     (if highlighted s \<and> \<not> isAnimating s then
        (let centerX = hl_x (highlightPoint s);
             centerY = hl_y (highlightPoint s);
             slope = hl_dy (highlightPoint s);
             xRange = 2;
             x1 = centerX - xRange;
             y1 = js_sub (js_number centerY) (js_mul slope (Fin xRange));
             x2 = centerX + xRange;
             p1 = mapToSVG s \<lparr>pt_x = x1, pt_y = Num y1\<rparr> (getEffectiveViewRange rnd s)
         in case centerY of
              Num c \<Rightarrow>
                (let y2 = js_add c (js_mul slope (Fin xRange));
                     p2 = mapToSVG s \<lparr>pt_x = x2, pt_y = Num y2\<rparr> (getEffectiveViewRange rnd s)
                 in Some (p1, Some p2))
            | NonNum t n \<Rightarrow> Some (p1, None))
      else None)"

section \<open>derivative-graph.tsx: the chart data\<close>

text \<open>
  A row of the chart.  \<open>y\<close> is the value of the function as evaluated and \<open>dy\<close> is
  \<open>dy || 0\<close>, either of which may be a value that is not a number; the tangent is the
  result of arithmetic, hence a number.  Inside the loop \<open>dy\<close> is \<open>null\<close> until the
  derivative is evaluated, hence an option there.
\<close>

record sample =
  s_x :: real
  s_y :: jsval
  s_dy :: jsval
  s_tangent :: jsnum

text \<open>\<open>!dy || isFinite(dy)\<close> and \<open>dy || 0\<close>, for \<open>dy\<close> a value or \<open>null\<close>.\<close>

fun dy_accepted :: "jsval option \<Rightarrow> bool" where
  "dy_accepted None = True"
| "dy_accepted (Some d) = (\<not> js_truthy d \<or> js_isFinite d)"

fun dy_or_zero :: "jsval option \<Rightarrow> jsval" where
  "dy_or_zero None = Num (Fin 0)"
| "dy_or_zero (Some d) = (if js_truthy d then d else Num (Fin 0))"

text \<open>
  The body of the loop: the inner \<open>try\<close> block for one \<open>x\<close>.  The result is the row it
  pushes, or \<open>None\<close> when it pushes nothing, which includes every exception, since the
  inner \<open>catch\<close> is empty.
\<close>

definition generateData_point ::
  "evaluator \<Rightarrow> string \<Rightarrow> string \<Rightarrow> jsval \<Rightarrow> jsnum \<Rightarrow> real \<Rightarrow> sample option" where
  "generateData_point ev func derivative tangentSlope tangentIntercept x =
     (case ev func x of
        Inl e \<Rightarrow> None
      | Inr y \<Rightarrow>
          (case (if derivative \<noteq> [] then map_sum id Some (ev derivative x) else Inr None) of
             Inl e \<Rightarrow> None
           | Inr dy \<Rightarrow>
               (let tangent = js_add (js_mul (js_number tangentSlope) (Fin x)) tangentIntercept in
                if js_isFinite y \<and> dy_accepted dy
                then Some \<lparr>s_x = x, s_y = y, s_dy = dy_or_zero dy, s_tangent = tangent\<rparr>
                else None)))"

fun generateData_loop ::
  "evaluator \<Rightarrow> string \<Rightarrow> string \<Rightarrow> jsval \<Rightarrow> jsnum \<Rightarrow> real \<Rightarrow> real \<Rightarrow> nat list \<Rightarrow>
     sample list \<Rightarrow> sample list" where
  "generateData_loop ev func derivative tangentSlope tangentIntercept lo step [] newData = newData"
| "generateData_loop ev func derivative tangentSlope tangentIntercept lo step (i # rest) newData =
     (let x = lo + real i * step in
      case generateData_point ev func derivative tangentSlope tangentIntercept x of
        None \<Rightarrow>
          generateData_loop ev func derivative tangentSlope tangentIntercept lo step rest newData
      | Some row \<Rightarrow>
          generateData_loop ev func derivative tangentSlope tangentIntercept lo step rest
            (newData @ [row]))"

definition generateData_points :: nat where
  "generateData_points = 1000"

text \<open>
  \<open>generateData\<close>.  \<open>Inr\<close> is the list handed to \<open>setData\<close>; \<open>Inl\<close> is the outer
  \<open>catch\<close>, which reports "Error generating graph data" and sets no data.
\<close>

definition generateData ::
  "evaluator \<Rightarrow> string \<Rightarrow> string \<Rightarrow> real \<times> real \<Rightarrow> real \<Rightarrow> js_error + sample list" where
  "generateData ev func derivative domain tangentPoint =
     (if func = [] then Inr []
      else
        (let step = (snd domain - fst domain) / real generateData_points in
         case ev derivative tangentPoint of
           Inl e \<Rightarrow> Inl e
         | Inr tangentSlope \<Rightarrow>
             (case ev func tangentPoint of
                Inl e \<Rightarrow> Inl e
              | Inr f0 \<Rightarrow>
                  (let tangentIntercept =
                         js_sub (js_number f0) (js_mul (js_number tangentSlope) (Fin tangentPoint))
                   in Inr (generateData_loop ev func derivative tangentSlope tangentIntercept
                             (fst domain) step [0..<Suc generateData_points] [])))))"

section \<open>Closed forms of the loops\<close>

text \<open>
  The grid point number \<open>i\<close> of a range cut into \<open>n\<close> steps, and what each of the two
  sampling loops keeps at one grid point.  The loops append one kept point after the
  other, so their results are these functions mapped over the indices.
\<close>

definition grid :: "real \<times> real \<Rightarrow> nat \<Rightarrow> nat \<Rightarrow> real" where
  "grid rng n i = fst rng + real i * ((snd rng - fst rng) / real n)"

definition calculatePoints_keep :: "evaluator \<Rightarrow> string \<Rightarrow> real \<Rightarrow> point option" where
  "calculatePoints_keep ev func x =
     (case ev func x of
        Inl e \<Rightarrow> None
      | Inr y \<Rightarrow>
          if js_isFinite y \<and> js_lt (js_abs (js_number y)) (Fin 100)
          then Some \<lparr>pt_x = x, pt_y = y\<rparr> else None)"

definition tangent_intercept :: "jsval \<Rightarrow> jsval \<Rightarrow> real \<Rightarrow> jsnum" where
  "tangent_intercept f0 slope tp = js_sub (js_number f0) (js_mul (js_number slope) (Fin tp))"

definition generateData_rows ::
  "evaluator \<Rightarrow> string \<Rightarrow> string \<Rightarrow> real \<times> real \<Rightarrow> real \<Rightarrow> jsval \<Rightarrow> jsval \<Rightarrow> sample list" where
  "generateData_rows ev func derivative domain tp slope f0 =
     List.map_filter
       (\<lambda>i. generateData_point ev func derivative slope (tangent_intercept f0 slope tp)
               (grid domain generateData_points i))
       [0..<Suc generateData_points]"

section \<open>Two zoom levels\<close>

text \<open>
  The doubles \<open>0.8499999999999998\<close> and \<open>0.8499999999999999\<close>, one unit in the last
  place apart, and two runs of wheel and button events from the initial state: wheel
  down, zoom in, wheel down twice, then either wheel down once more, or zoom in, zoom
  out and wheel down.
\<close>

definition zoom_low :: real where
  "zoom_low = 7656119366529841 / 2 ^ 53"

definition zoom_high :: real where
  "zoom_high = 7656119366529842 / 2 ^ 53"

definition zoomed_common :: visualizer where
  "zoomed_common =
     handleWheel binary64 1 (handleWheel binary64 1
       (handleZoomIn binary64 (handleWheel binary64 1 initial_state)))"

definition zoomed_high :: visualizer where
  "zoomed_high = handleWheel binary64 1 zoomed_common"

definition zoomed_low :: visualizer where
  "zoomed_low =
     handleWheel binary64 1 (handleZoomOut binary64 (handleZoomIn binary64 zoomed_common))"

section \<open>Properties\<close>

subsection \<open>Rounding to the nearest double\<close>

lemma rne_cases: "rne x = \<lfloor>x\<rfloor> \<or> rne x = \<lfloor>x\<rfloor> + 1"
  by (simp add: rne_def Let_def)

lemma rne_of_int [simp]: "rne (of_int n) = n"
  by (simp add: rne_def)

lemma rne_lower: "\<lfloor>x\<rfloor> \<le> rne x"
  using rne_cases [of x] by auto

lemma rne_upper: "rne x \<le> \<lfloor>x\<rfloor> + 1"
  using rne_cases [of x] by auto

lemma rne_mono:
  assumes "x \<le> y"
  shows "rne x \<le> rne y"
proof (cases "\<lfloor>x\<rfloor> < \<lfloor>y\<rfloor>")
  case True
  have "rne x \<le> \<lfloor>x\<rfloor> + 1" by (rule rne_upper)
  also have "\<dots> \<le> \<lfloor>y\<rfloor>" using True by simp
  also have "\<dots> \<le> rne y" by (rule rne_lower)
  finally show ?thesis .
next
  case False
  with assms have eq: "\<lfloor>x\<rfloor> = \<lfloor>y\<rfloor>"
    using floor_mono [of x y] by simp
  with assms show ?thesis
    by (auto simp add: rne_def Let_def)
qed

lemma rne_ge: "of_int m \<le> x \<Longrightarrow> m \<le> rne x"
  using rne_mono [of "of_int m" x] by simp

lemma rne_le: "x \<le> of_int m \<Longrightarrow> rne x \<le> m"
  using rne_mono [of x "of_int m"] by simp

lemma rne_minus: "rne (- x) = - rne x"
proof (cases "x = of_int \<lfloor>x\<rfloor>")
  case True
  then obtain n where "x = of_int n" ..
  then have "- x = of_int (- n)" by simp
  then show ?thesis
    unfolding \<open>x = of_int n\<close> using rne_of_int [of "- n"] by simp
next
  case False
  then have frac: "of_int \<lfloor>x\<rfloor> < x"
    using of_int_floor_le [of x] by (metis less_le)
  have up: "x < of_int \<lfloor>x\<rfloor> + 1" by linarith
  have fl: "\<lfloor>- x\<rfloor> = - \<lfloor>x\<rfloor> - 1"
  proof (rule floor_unique)
    show "of_int (- \<lfloor>x\<rfloor> - 1) \<le> - x"
      using up by linarith
    show "- x < of_int (- \<lfloor>x\<rfloor> - 1) + 1"
      using frac by linarith
  qed
  from up frac fl show ?thesis
    by (auto simp add: rne_def Let_def)
qed


lemma binary64_zero [simp]: "binary64 0 = 0"
  by (simp add: binary64_def)

lemma binary64_exponent64:
  "x \<noteq> 0 \<Longrightarrow> binary64 x =
     of_int (rne (x / 2 powr of_int (exponent64 x))) * 2 powr of_int (exponent64 x)"
  by (simp add: binary64_def)

lemma exponent64_bounds:
  assumes "x \<noteq> 0"
  shows "2 ^ 52 * 2 powr of_int (exponent64 x) \<le> \<bar>x\<bar>"
    and "\<bar>x\<bar> < 2 ^ 53 * 2 powr of_int (exponent64 x)"
proof -
  define k where "k = \<lfloor>log 2 \<bar>x\<bar>\<rfloor>"
  have pos: "0 < \<bar>x\<bar>" using assms by simp
  have "2 powr of_int k \<le> \<bar>x\<bar> \<and> \<bar>x\<bar> < 2 powr (of_int k + 1)"
    using floor_log_eq_powr_iff [OF pos, of 2 k] by (simp add: k_def)
  moreover have "of_int k = of_int (exponent64 x) + (52 :: real)"
    by (simp add: exponent64_def k_def)
  moreover have "(2::real) powr (of_int (exponent64 x) + 52) = 2 ^ 52 * 2 powr of_int (exponent64 x)"
    by (simp add: powr_add)
  moreover have "(2::real) powr (of_int (exponent64 x) + 52 + 1) = 2 ^ 53 * 2 powr of_int (exponent64 x)"
    by (simp add: powr_add)
  ultimately show "2 ^ 52 * 2 powr of_int (exponent64 x) \<le> \<bar>x\<bar>"
    and "\<bar>x\<bar> < 2 ^ 53 * 2 powr of_int (exponent64 x)"
    by simp_all
qed

lemma exponent64_eqI:
  assumes "2 ^ 52 * 2 powr of_int e \<le> \<bar>x\<bar>" and "\<bar>x\<bar> < 2 ^ 53 * 2 powr of_int e"
  shows "exponent64 x = e"
proof -
  have "0 < (2::real) ^ 52 * 2 powr of_int e" by simp
  with assms(1) have pos: "0 < \<bar>x\<bar>" by linarith
  have "(2::real) powr of_int (e + 52) = 2 ^ 52 * 2 powr of_int e"
    by (simp add: powr_add)
  moreover have "(2::real) powr (of_int (e + 52) + 1) = 2 ^ 53 * 2 powr of_int e"
    by (simp add: powr_add)
  ultimately have "\<lfloor>log 2 \<bar>x\<bar>\<rfloor> = e + 52"
    using floor_log_eq_powr_iff [OF pos, of 2 "e + 52"] assms by simp
  then show ?thesis by (simp add: exponent64_def)
qed

lemma binary64_eqI:
  assumes "2 ^ 52 * 2 powr of_int e \<le> \<bar>x\<bar>" and "\<bar>x\<bar> < 2 ^ 53 * 2 powr of_int e"
    and "rne (x / 2 powr of_int e) = m"
  shows "binary64 x = of_int m * 2 powr of_int e"
proof -
  have "0 < (2::real) ^ 52 * 2 powr of_int e" by simp
  with assms(1) have "x \<noteq> 0" by auto
  with exponent64_eqI [OF assms(1,2)] assms(3) show ?thesis
    by (simp add: binary64_exponent64)
qed

lemma exponent64_minus [simp]: "exponent64 (- x) = exponent64 x"
  by (simp add: exponent64_def)

lemma binary64_minus: "binary64 (- x) = - binary64 x"
proof (cases "x = 0")
  case True
  then show ?thesis by simp
next
  case False
  then show ?thesis
    using rne_minus [of "x / 2 powr of_int (exponent64 x)"]
    by (simp add: binary64_exponent64)
qed

lemma binary64_pos_bounds:
  assumes "0 < x"
  shows "2 ^ 52 * 2 powr of_int (exponent64 x) \<le> binary64 x"
    and "binary64 x \<le> 2 ^ 53 * 2 powr of_int (exponent64 x)"
proof -
  define p where "p = (2::real) powr of_int (exponent64 x)"
  have p: "0 < p" by (simp add: p_def)
  have x: "x \<noteq> 0" "\<bar>x\<bar> = x" using assms by simp_all
  from exponent64_bounds [OF x(1)] have lo: "2 ^ 52 * p \<le> x" and hi: "x < 2 ^ 53 * p"
    by (simp_all add: p_def x(2))
  have "of_int (2 ^ 52) \<le> x / p"
    using lo p by (simp add: pos_le_divide_eq)
  then have "2 ^ 52 \<le> rne (x / p)" by (rule rne_ge)
  then have "(2::real) ^ 52 \<le> of_int (rne (x / p))"
    by (metis of_int_le_iff of_int_numeral of_int_power)
  then have "2 ^ 52 * p \<le> of_int (rne (x / p)) * p"
    using p by simp
  then show "2 ^ 52 * 2 powr of_int (exponent64 x) \<le> binary64 x"
    using x(1) by (simp add: binary64_exponent64 p_def)
  have "x / p \<le> of_int (2 ^ 53)"
    using hi p by (simp add: pos_divide_le_eq)
  then have "rne (x / p) \<le> 2 ^ 53" by (rule rne_le)
  then have "of_int (rne (x / p)) \<le> (2::real) ^ 53"
    by (metis of_int_le_iff of_int_numeral of_int_power)
  then have "of_int (rne (x / p)) * p \<le> 2 ^ 53 * p"
    using p by simp
  then show "binary64 x \<le> 2 ^ 53 * 2 powr of_int (exponent64 x)"
    using x(1) by (simp add: binary64_exponent64 p_def)
qed

lemma binary64_pos:
  assumes "0 < x"
  shows "0 < binary64 x"
proof -
  have "0 < (2::real) ^ 52 * 2 powr of_int (exponent64 x)" by simp
  with binary64_pos_bounds(1) [OF assms] show ?thesis by linarith
qed

lemma binary64_mono_pos:
  assumes "0 < x" and "x \<le> y"
  shows "binary64 x \<le> binary64 y"
proof -
  have y: "0 < y" using assms by simp
  have "log 2 \<bar>x\<bar> \<le> log 2 \<bar>y\<bar>"
    using assms by simp
  then have le: "exponent64 x \<le> exponent64 y"
    by (simp add: exponent64_def floor_mono)
  show ?thesis
  proof (cases "exponent64 x = exponent64 y")
    case True
    define p where "p = (2::real) powr of_int (exponent64 y)"
    have p: "0 < p" by (simp add: p_def)
    have "x / p \<le> y / p"
      using assms(2) p by (simp add: divide_right_mono)
    then have "rne (x / p) \<le> rne (y / p)" by (rule rne_mono)
    then have "of_int (rne (x / p)) * p \<le> of_int (rne (y / p)) * p"
      using p by simp
    then show ?thesis
      using assms(1) y True by (simp add: binary64_exponent64 p_def)
  next
    case False
    with le have "exponent64 x + 1 \<le> exponent64 y" by simp
    then have "(2::real) powr of_int (exponent64 x + 1) \<le> 2 powr of_int (exponent64 y)"
      by simp
    then have "2 * (2::real) powr of_int (exponent64 x) \<le> 2 powr of_int (exponent64 y)"
      by (simp add: powr_add)
    then have "2 ^ 53 * (2::real) powr of_int (exponent64 x) \<le> 2 ^ 52 * 2 powr of_int (exponent64 y)"
      by simp
    with binary64_pos_bounds(2) [OF assms(1)] binary64_pos_bounds(1) [OF y]
    show ?thesis by linarith
  qed
qed

lemma binary64_mono:
  assumes "x \<le> y"
  shows "binary64 x \<le> binary64 y"
proof -
  consider "0 < x" | "x = 0" "0 < y" | "x = 0" "y = 0" | "x < 0" "0 \<le> y" | "y < 0"
    using assms by linarith
  then show ?thesis
  proof cases
    case 1
    then show ?thesis using assms by (rule binary64_mono_pos)
  next
    case 2
    then show ?thesis using binary64_pos [of y] by simp
  next
    case 3
    then show ?thesis by simp
  next
    case 4
    have "0 < binary64 (- x)" using 4(1) by (intro binary64_pos) simp
    then have "binary64 x < 0" by (simp add: binary64_minus)
    moreover have "0 \<le> binary64 y"
      using 4(2) binary64_pos [of y] by (cases "y = 0") auto
    ultimately show ?thesis by simp
  next
    case 5
    then have "0 < - y" and "- y \<le> - x" using assms by simp_all
    then have "binary64 (- y) \<le> binary64 (- x)" by (rule binary64_mono_pos)
    then show ?thesis by (simp add: binary64_minus)
  qed
qed


lemma rne_eqI:
  assumes "of_int m - 1 / 2 < y" and "y < of_int m + 1 / 2"
  shows "rne y = m"
proof (cases "of_int m \<le> y")
  case True
  with assms(2) have "\<lfloor>y\<rfloor> = m" by (intro floor_unique) simp_all
  with assms(2) show ?thesis by (simp add: rne_def Let_def)
next
  case False
  with assms(1) have "\<lfloor>y\<rfloor> = m - 1" by (intro floor_unique) simp_all
  with assms(1) show ?thesis by (simp add: rne_def Let_def)
qed

lemma binary64_nearI:
  assumes "p = 2 powr of_int e"
    and "2 ^ 52 * p \<le> \<bar>x\<bar>" and "\<bar>x\<bar> < 2 ^ 53 * p"
    and "of_int m * p - p / 2 < x" and "x < of_int m * p + p / 2"
  shows "binary64 x = of_int m * p"
proof -
  have p: "0 < p" by (simp add: assms(1))
  have "(of_int m - 1 / 2) * p < x"
    using assms(4) by (simp add: algebra_simps)
  then have "of_int m - 1 / 2 < x / p"
    using p by (simp only: pos_less_divide_eq)
  moreover have "x < (of_int m + 1 / 2) * p"
    using assms(5) by (simp add: algebra_simps)
  then have "x / p < of_int m + 1 / 2"
    using p by (simp only: pos_divide_less_eq)
  ultimately have "rne (x / p) = m" by (rule rne_eqI)
  then have "rne (x / 2 powr of_int e) = m" by (simp add: assms(1))
  with assms(2,3) show ?thesis
    unfolding assms(1) by (rule binary64_eqI)
qed

lemma binary64_exactI:
  assumes "p = 2 powr of_int e" and "x = of_int m * p"
    and "2 ^ 52 \<le> \<bar>m\<bar>" and "\<bar>m\<bar> < 2 ^ 53"
  shows "binary64 x = x"
proof -
  have p: "0 < p" by (simp add: assms(1))
  have ax: "\<bar>x\<bar> = of_int \<bar>m\<bar> * p"
    using p by (simp add: assms(2) abs_mult)
  have "(2::real) ^ 52 \<le> of_int \<bar>m\<bar>" and "of_int \<bar>m\<bar> < (2::real) ^ 53"
    using assms(3,4) by (metis of_int_le_iff of_int_numeral of_int_power,
        metis of_int_less_iff of_int_numeral of_int_power)
  then have "2 ^ 52 * p \<le> \<bar>x\<bar>" and "\<bar>x\<bar> < 2 ^ 53 * p"
    using p by (simp_all add: ax)
  then have "binary64 x = of_int m * p"
    using assms(1) p by (intro binary64_nearI [of p e]) (simp_all add: assms(2))
  then show ?thesis by (simp add: assms(2))
qed

text \<open>
  Evaluation at a concrete argument: with \<open>k\<close> chosen so that the scaled argument lies
  between \<open>2^52\<close> and \<open>2^53\<close>, the double is the rounded scaled argument over \<open>2^k\<close>.
\<close>

lemma pow2_neg: "(2::real) powr of_int (- int k) = 1 / 2 ^ k"
  by (simp add: powr_minus powr_realpow inverse_eq_divide)

lemma binary64_rneI:
  assumes "2 ^ 52 / 2 ^ k \<le> \<bar>x\<bar>" and "\<bar>x\<bar> < 2 ^ 53 / 2 ^ k" and "rne (x * 2 ^ k) = m"
  shows "binary64 x = of_int m / 2 ^ k"
proof -
  have "binary64 x = of_int m * 2 powr of_int (- int k)"
  proof (rule binary64_eqI)
    show "2 ^ 52 * 2 powr of_int (- int k) \<le> \<bar>x\<bar>"
      using assms(1) by (simp only: pow2_neg) simp
    show "\<bar>x\<bar> < 2 ^ 53 * 2 powr of_int (- int k)"
      using assms(2) by (simp only: pow2_neg) simp
    show "rne (x / 2 powr of_int (- int k)) = m"
      using assms(3) by (simp only: pow2_neg) simp
  qed
  then show ?thesis by (simp only: pow2_neg) simp
qed

lemma binary64_valueI:
  assumes "y = of_int m / 2 ^ k"
    and "2 ^ 52 / 2 ^ k \<le> \<bar>x\<bar>" and "\<bar>x\<bar> < 2 ^ 53 / 2 ^ k" and "rne (x * 2 ^ k) = m"
  shows "binary64 x = y"
  unfolding assms(1) using assms(2-4) by (rule binary64_rneI)

subsection \<open>Values\<close>

lemma isFinite_not_isNaN: "isFinite n \<Longrightarrow> \<not> isNaN n"
  by (cases n) simp_all

lemma js_isFinite_not_js_isNaN: "js_isFinite v \<Longrightarrow> \<not> js_isNaN v"
  by (simp add: js_isFinite_def js_isNaN_def isFinite_not_isNaN)

lemma js_isFinite_Num [simp]: "js_isFinite (Num n) = isFinite n"
  by (simp add: js_isFinite_def)

lemma isNaN_js_mul_left: "isNaN a \<Longrightarrow> js_mul a b = NaN"
  by (cases a) simp_all

lemma safeEval_Inr: "\<exists>v. safeEval ev expr x = Inr v"
  by (simp add: safeEval_def split: sum.split)

lemma numericalDerivative_Inr: "\<exists>d. numericalDerivative ev func x h = Inr d"
  by (simp add: numericalDerivative_def safeEval_def split: sum.split)

subsection \<open>The sampling loops\<close>

lemma map_filter_mem: "y \<in> set (List.map_filter f xs) \<longleftrightarrow> (\<exists>x \<in> set xs. f x = Some y)"
  by (induction xs) (auto split: option.splits)

lemma ex_upt_Suc: "(\<exists>i \<in> set [0..<Suc n]. P i) \<longleftrightarrow> (\<exists>i\<le>n. P i)"
proof -
  have "set [0..<Suc n] = {i. i \<le> n}"
    by (auto simp del: upt_Suc)
  then show ?thesis by blast
qed

lemma calculatePoints_filter:
  "(\<not> js_isNaN y \<and> js_isFinite y \<and> js_lt (js_abs (js_number y)) (Fin 100)) =
   (js_isFinite y \<and> js_lt (js_abs (js_number y)) (Fin 100))"
  using js_isFinite_not_js_isNaN [of y] by blast

lemma calculatePoints_loop_eq:
  "calculatePoints_loop ev func lo step idxs result =
     Inr (result @ List.map_filter (\<lambda>i. calculatePoints_keep ev func (lo + real i * step)) idxs)"
proof (induction idxs arbitrary: result)
  case Nil
  show ?case by simp
next
  case (Cons i rest)
  show ?case
  proof (cases "ev func (lo + real i * step)")
    case (Inl e)
    then show ?thesis
      using Cons.IH [of result]
      by (simp add: safeEval_def calculatePoints_keep_def js_isFinite_def js_isNaN_def)
  next
    case (Inr y)
    then show ?thesis
      using Cons.IH [of result] Cons.IH [of "result @ [\<lparr>pt_x = lo + real i * step, pt_y = y\<rparr>]"]
      by (simp add: safeEval_def calculatePoints_keep_def calculatePoints_filter)
  qed
qed

lemma calculatePoints_eq:
  "calculatePoints ev func rng n =
     Inr (List.map_filter (\<lambda>i. calculatePoints_keep ev func (grid rng n i)) [0..<Suc n])"
  by (simp add: calculatePoints_def calculatePoints_loop_eq grid_def)

lemma calculatePoints_mem:
  assumes "calculatePoints ev func rng n = Inr pts"
  shows "p \<in> set pts \<longleftrightarrow> (\<exists>i\<le>n. calculatePoints_keep ev func (grid rng n i) = Some p)"
proof -
  have "pts = List.map_filter (\<lambda>i. calculatePoints_keep ev func (grid rng n i)) [0..<Suc n]"
    using assms by (simp only: calculatePoints_eq sum.inject)
  then show ?thesis
    by (simp only: map_filter_mem ex_upt_Suc)
qed

lemma calculatePoints_keep_Some:
  assumes "calculatePoints_keep ev func x = Some p"
  shows "pt_x p = x \<and> ev func x = Inr (pt_y p) \<and> js_isFinite (pt_y p) \<and>
         js_lt (js_abs (js_number (pt_y p))) (Fin 100)"
proof (cases "ev func x")
  case (Inl e)
  with assms show ?thesis by (simp add: calculatePoints_keep_def)
next
  case (Inr y)
  with assms have ok: "js_isFinite y \<and> js_lt (js_abs (js_number y)) (Fin 100)"
    by (simp add: calculatePoints_keep_def split: if_splits)
  with assms Inr have "p = \<lparr>pt_x = x, pt_y = y\<rparr>"
    by (simp add: calculatePoints_keep_def)
  with Inr ok show ?thesis by simp
qed

lemma calculatePoints_point_present:
  assumes "i \<le> n" and "calculatePoints_keep ev func (grid rng n i) = Some p"
  shows "\<exists>pts. calculatePoints ev func rng n = Inr pts \<and> p \<in> set pts"
proof -
  obtain pts where pts: "calculatePoints ev func rng n = Inr pts"
    by (simp add: calculatePoints_eq)
  with assms show ?thesis
    by (auto simp add: calculatePoints_mem [OF pts])
qed

lemma generateData_loop_eq:
  "generateData_loop ev func derivative slope icpt lo step idxs newData =
     newData @ List.map_filter
       (\<lambda>i. generateData_point ev func derivative slope icpt (lo + real i * step)) idxs"
proof (induction idxs arbitrary: newData)
  case Nil
  show ?case by simp
next
  case (Cons i rest)
  show ?case
    by (cases "generateData_point ev func derivative slope icpt (lo + real i * step)")
       (simp_all add: Cons.IH)
qed

lemma generateData_eq:
  "generateData ev func derivative domain tp =
     (if func = [] then Inr []
      else case ev derivative tp of
             Inl e \<Rightarrow> Inl e
           | Inr slope \<Rightarrow>
               (case ev func tp of
                  Inl e \<Rightarrow> Inl e
                | Inr f0 \<Rightarrow> Inr (generateData_rows ev func derivative domain tp slope f0)))"
  unfolding generateData_def generateData_rows_def Let_def generateData_loop_eq grid_def
    tangent_intercept_def
  by (simp split: sum.split del: upt_Suc)

lemma generateData_returns:
  assumes "func \<noteq> []" "ev derivative tp = Inr slope" "ev func tp = Inr f0"
  shows "generateData ev func derivative domain tp =
           Inr (generateData_rows ev func derivative domain tp slope f0)"
  using assms by (simp add: generateData_eq)

lemma generateData_Inr:
  assumes "generateData ev func derivative domain tp = Inr data" and "func \<noteq> []"
  shows "\<exists>slope f0. ev derivative tp = Inr slope \<and> ev func tp = Inr f0 \<and>
           data = generateData_rows ev func derivative domain tp slope f0"
  using assms by (auto simp add: generateData_eq split: sum.splits)

lemma generateData_rows_mem:
  "s \<in> set (generateData_rows ev func derivative domain tp slope f0) \<longleftrightarrow>
     (\<exists>i\<le>generateData_points.
        generateData_point ev func derivative slope (tangent_intercept f0 slope tp)
          (grid domain generateData_points i) = Some s)"
  by (simp only: generateData_rows_def map_filter_mem ex_upt_Suc)

lemma generateData_point_no_derivative:
  "generateData_point ev func [] slope icpt x =
     (case ev func x of
        Inl e \<Rightarrow> None
      | Inr y \<Rightarrow>
          if js_isFinite y
          then Some \<lparr>s_x = x, s_y = y, s_dy = Num (Fin 0),
                      s_tangent = js_add (js_mul (js_number slope) (Fin x)) icpt\<rparr>
          else None)"
  by (simp add: generateData_point_def split: sum.split)

lemma generateData_point_derivative:
  assumes "derivative \<noteq> []"
  shows "generateData_point ev func derivative slope icpt x =
     (case ev func x of
        Inl e \<Rightarrow> None
      | Inr y \<Rightarrow>
          (case ev derivative x of
             Inl e \<Rightarrow> None
           | Inr d \<Rightarrow>
               if js_isFinite y \<and> (\<not> js_truthy d \<or> js_isFinite d)
               then Some \<lparr>s_x = x, s_y = y, s_dy = (if js_truthy d then d else Num (Fin 0)),
                           s_tangent = js_add (js_mul (js_number slope) (Fin x)) icpt\<rparr>
               else None))"
proof (cases "ev func x")
  case (Inl e)
  then show ?thesis by (simp add: generateData_point_def)
next
  case y: (Inr y)
  show ?thesis
  proof (cases "ev derivative x")
    case (Inl e)
    with y assms show ?thesis by (simp add: generateData_point_def)
  next
    case (Inr d)
    with y assms show ?thesis
      by (simp add: generateData_point_def)
  qed
qed

lemma generateData_point_Some:
  assumes "generateData_point ev func derivative slope icpt x = Some s"
  shows "s_x s = x \<and> ev func x = Inr (s_y s) \<and> js_isFinite (s_y s) \<and>
         s_tangent s = js_add (js_mul (js_number slope) (Fin x)) icpt \<and>
         (if derivative = [] then s_dy s = Num (Fin 0)
          else \<exists>d. ev derivative x = Inr d \<and> (\<not> js_truthy d \<or> js_isFinite d) \<and>
                 s_dy s = (if js_truthy d then d else Num (Fin 0)))"
proof (cases "ev func x")
  case (Inl e)
  with assms show ?thesis by (simp add: generateData_point_def)
next
  case y: (Inr y)
  show ?thesis
  proof (cases "derivative = []")
    case True
    with assms y have "js_isFinite y"
      by (simp add: generateData_point_no_derivative split: if_splits)
    with assms y True
    have "s = \<lparr>s_x = x, s_y = y, s_dy = Num (Fin 0),
                s_tangent = js_add (js_mul (js_number slope) (Fin x)) icpt\<rparr>"
      by (simp add: generateData_point_no_derivative)
    with y True \<open>js_isFinite y\<close> show ?thesis by simp
  next
    case False
    show ?thesis
    proof (cases "ev derivative x")
      case (Inl e)
      with assms y False show ?thesis by (simp add: generateData_point_derivative)
    next
      case d: (Inr d)
      with assms y False have ok: "js_isFinite y \<and> (\<not> js_truthy d \<or> js_isFinite d)"
        by (simp add: generateData_point_derivative split: if_splits)
      with assms y False d
      have "s = \<lparr>s_x = x, s_y = y, s_dy = (if js_truthy d then d else Num (Fin 0)),
                  s_tangent = js_add (js_mul (js_number slope) (Fin x)) icpt\<rparr>"
        by (simp add: generateData_point_derivative)
      with y False d ok show ?thesis by simp
    qed
  qed
qed

lemma generateData_row:
  assumes "generateData ev func derivative domain tp = Inr data" and "s \<in> set data"
  shows "\<exists>slope f0 i. func \<noteq> [] \<and> ev derivative tp = Inr slope \<and> ev func tp = Inr f0 \<and>
           i \<le> generateData_points \<and>
           generateData_point ev func derivative slope (tangent_intercept f0 slope tp)
             (grid domain generateData_points i) = Some s"
proof -
  have nonempty: "func \<noteq> []"
    using assms by (auto simp add: generateData_eq)
  from generateData_Inr [OF assms(1) nonempty] obtain slope f0 where
    sl: "ev derivative tp = Inr slope" and f0: "ev func tp = Inr f0" and
    d: "data = generateData_rows ev func derivative domain tp slope f0"
    by blast
  from assms(2) d obtain i where "i \<le> generateData_points"
    "generateData_point ev func derivative slope (tangent_intercept f0 slope tp)
       (grid domain generateData_points i) = Some s"
    by (auto simp add: generateData_rows_mem)
  with nonempty sl f0 show ?thesis by blast
qed

lemma generateData_row_present:
  assumes "func \<noteq> []" "ev derivative tp = Inr slope" "ev func tp = Inr f0"
    "i \<le> generateData_points"
    "generateData_point ev func derivative slope (tangent_intercept f0 slope tp)
       (grid domain generateData_points i) = Some s"
  shows "\<exists>data. generateData ev func derivative domain tp = Inr data \<and> s \<in> set data"
proof -
  have "s \<in> set (generateData_rows ev func derivative domain tp slope f0)"
    using assms(4,5) by (auto simp add: generateData_rows_mem)
  moreover have "generateData ev func derivative domain tp =
      Inr (generateData_rows ev func derivative domain tp slope f0)"
    using assms(1-3) by (rule generateData_returns)
  ultimately show ?thesis by simp
qed


subsection \<open>Evaluation\<close>

text \<open>
  C1 (counterexample).  The claim says that the result of \<open>safeEval\<close> is \<open>NaN\<close> or a
  finite number.  For the expression \<open>1/x\<close> at \<open>x = 0\<close> the capability returns
  \<open>Infinity\<close> without throwing, and \<open>safeEval\<close> hands it on: the result is neither
  \<open>NaN\<close> nor finite.
\<close>

theorem safeEval_infinity_counterexample:
  "safeEval demo_evaluate ''1/x'' 0 = Inr (Num PInf) \<and> \<not> isNaN PInf \<and> \<not> isFinite PInf"
  by (simp add: safeEval_def demo_evaluate_def signed_inf_def)

text \<open>
  C1 (amended).  For every evaluator, expression and \<open>x\<close>, \<open>safeEval\<close> does not throw:
  it returns a value, which is \<open>NaN\<close> when the capability throws and otherwise exactly
  the capability's value, whatever that is.
\<close>

theorem safeEval_never_raises:
  "\<exists>v. safeEval ev expr x = Inr v \<and>
     (case ev expr x of Inl e \<Rightarrow> v = Num NaN | Inr r \<Rightarrow> v = r)"
  by (simp add: safeEval_def split: sum.split)

text \<open>C1 (witness).  A text the capability rejects gives \<open>NaN\<close>.\<close>

theorem safeEval_never_raises_witness:
  "\<exists>v. safeEval demo_evaluate ''sin('' 2 = Inr v \<and> v = Num NaN"
  using safeEval_never_raises [of demo_evaluate "''sin(''" 2]
  by (simp add: demo_evaluate_def)

subsection \<open>The chart data\<close>

text \<open>
  C10.  Every row that \<open>generateData\<close> emits has a finite \<open>dy\<close>.  Without a
  derivative expression it is 0; with one, the derivative evaluated at the row's \<open>x\<close>
  without throwing, its value \<open>d\<close> is not infinite (such a point is dropped), and the
  stored \<open>dy\<close> is 0 when \<open>d\<close> is falsy, as \<open>NaN\<close> is, and \<open>d\<close> itself, which is then
  finite, otherwise.  For a number \<open>d\<close> this is: 0 when \<open>d\<close> is \<open>NaN\<close>, else \<open>d\<close>.
\<close>

theorem generateData_dy_finite:
  assumes "generateData ev func derivative domain tp = Inr data" and "s \<in> set data"
  shows "js_isFinite (s_dy s) \<and>
         (if derivative = [] then s_dy s = Num (Fin 0)
          else \<exists>d. ev derivative (s_x s) = Inr d \<and> d \<noteq> Num PInf \<and> d \<noteq> Num NInf \<and>
                 (js_truthy d \<longrightarrow> js_isFinite d) \<and>
                 s_dy s = (if js_truthy d then d else Num (Fin 0)) \<and>
                 (\<forall>n. d = Num n \<longrightarrow> s_dy s = (if n = NaN then Num (Fin 0) else Num n)))"
proof -
  from generateData_row [OF assms] obtain slope f0 i where
    "generateData_point ev func derivative slope (tangent_intercept f0 slope tp)
       (grid domain generateData_points i) = Some s"
    by blast
  note row = generateData_point_Some [OF this]
  have x: "s_x s = grid domain generateData_points i"
    using row by blast
  show ?thesis
  proof (cases "derivative = []")
    case True
    with row have "s_dy s = Num (Fin 0)" by simp
    with True show ?thesis by simp
  next
    case False
    with row have "\<exists>d. ev derivative (grid domain generateData_points i) = Inr d \<and>
        (\<not> js_truthy d \<or> js_isFinite d) \<and>
        s_dy s = (if js_truthy d then d else Num (Fin 0))"
      by simp
    then obtain d where d: "ev derivative (s_x s) = Inr d"
      and ok: "\<not> js_truthy d \<or> js_isFinite d"
      and stored: "s_dy s = (if js_truthy d then d else Num (Fin 0))"
      unfolding x by blast
    have fin: "js_isFinite (s_dy s)"
      using ok stored by auto
    have inf: "d \<noteq> Num PInf" "d \<noteq> Num NInf"
      using ok by auto
    have num: "s_dy s = (if n = NaN then Num (Fin 0) else Num n)" if "d = Num n" for n
      using that stored by (cases n) simp_all
    have "\<exists>d. ev derivative (s_x s) = Inr d \<and> d \<noteq> Num PInf \<and> d \<noteq> Num NInf \<and>
                 (js_truthy d \<longrightarrow> js_isFinite d) \<and>
                 s_dy s = (if js_truthy d then d else Num (Fin 0)) \<and>
                 (\<forall>n. d = Num n \<longrightarrow> s_dy s = (if n = NaN then Num (Fin 0) else Num n))"
      using d inf ok stored num by (intro exI [of _ d]) blast
    with False fin show ?thesis by simp
  qed
qed

text \<open>
  C10 (witness).  For \<open>f = x\<close> with the derivative text \<open>0/x\<close> on \<open>[-10, 10]\<close>, the grid
  point 500 is \<open>x = 0\<close>, where the derivative is \<open>NaN\<close>; its row is emitted with
  \<open>dy = 0\<close>.
\<close>

theorem generateData_dy_finite_witness:
  "demo_evaluate ''0/x'' 0 = Inr (Num NaN) \<and>
   (case generateData demo_evaluate ''x'' ''0/x'' (- 10, 10) 1 of
      Inl e \<Rightarrow> False
    | Inr data \<Rightarrow>
        \<lparr>s_x = 0, s_y = Num (Fin 0), s_dy = Num (Fin 0), s_tangent = Fin 1\<rparr> \<in> set data \<and>
        js_isFinite (s_dy \<lparr>s_x = 0, s_y = Num (Fin 0), s_dy = Num (Fin 0), s_tangent = Fin 1\<rparr>))"
proof -
  let ?row = "\<lparr>s_x = 0, s_y = Num (Fin 0), s_dy = Num (Fin 0), s_tangent = Fin 1\<rparr>"
  have g: "grid (- 10, 10) generateData_points 500 = 0"
    by (simp add: grid_def generateData_points_def)
  have "generateData_point demo_evaluate ''x'' ''0/x'' (Num (Fin 0))
          (tangent_intercept (Num (Fin 1)) (Num (Fin 0)) 1)
          (grid (- 10, 10) generateData_points 500)
        = Some ?row"
    unfolding g
    by (simp add: generateData_point_def demo_evaluate_def tangent_intercept_def js_sub_def)
  then have "\<exists>data. generateData demo_evaluate ''x'' ''0/x'' (- 10, 10) 1 = Inr data \<and>
      ?row \<in> set data"
    by (rule generateData_row_present [rotated 4])
      (simp_all add: demo_evaluate_def generateData_points_def)
  then obtain data where d: "generateData demo_evaluate ''x'' ''0/x'' (- 10, 10) 1 = Inr data"
    and m: "?row \<in> set data"
    by blast
  from generateData_dy_finite [OF d m] have "js_isFinite (s_dy ?row)" by blast
  with d m show ?thesis by (simp add: demo_evaluate_def)
qed




text \<open>
  C9 (counterexample).  The claim treats an invalid derivative value at the tangent point
  as slope 0.  For \<open>f = x\<close> with the derivative text \<open>0/x\<close> and the tangent point 0 the
  slope is \<open>NaN\<close>, and the row at \<open>x = -10\<close> carries the tangent value \<open>NaN\<close>; with
  slope 0 it would be \<open>0 * (-10) + (f(0) - 0 * 0) = 0\<close>.
\<close>

theorem generateData_tangent_counterexample:
  "demo_evaluate ''0/x'' 0 = Inr (Num NaN) \<and>
   demo_evaluate ''x'' 0 = Inr (Num (Fin 0)) \<and>
   (case generateData demo_evaluate ''x'' ''0/x'' (- 10, 10) 0 of
      Inl e \<Rightarrow> False
    | Inr data \<Rightarrow>
        \<lparr>s_x = - 10, s_y = Num (Fin (- 10)), s_dy = Num (Fin 0), s_tangent = NaN\<rparr>
          \<in> set data) \<and>
   js_add (js_mul (Fin 0) (Fin (- 10))) (js_sub (Fin 0) (js_mul (Fin 0) (Fin 0))) = Fin 0"
proof -
  let ?row = "\<lparr>s_x = - 10, s_y = Num (Fin (- 10)), s_dy = Num (Fin 0), s_tangent = NaN\<rparr>"
  have g: "grid (- 10, 10) generateData_points 0 = - 10"
    by (simp add: grid_def)
  have "generateData_point demo_evaluate ''x'' ''0/x'' (Num NaN)
          (tangent_intercept (Num (Fin 0)) (Num NaN) 0) (grid (- 10, 10) generateData_points 0)
        = Some ?row"
    unfolding g
    by (simp add: generateData_point_def demo_evaluate_def tangent_intercept_def js_sub_def)
  then have "\<exists>data. generateData demo_evaluate ''x'' ''0/x'' (- 10, 10) 0 = Inr data \<and>
      ?row \<in> set data"
    by (rule generateData_row_present [rotated 4]) (simp_all add: demo_evaluate_def)
  then show ?thesis
    by (auto simp add: demo_evaluate_def js_sub_def)
qed

text \<open>
  C9 (amended).  When \<open>generateData\<close> produces data, the derivative and the function
  both evaluated at the tangent point \<open>x0\<close> without throwing, to \<open>slope\<close> and \<open>f0\<close>, and
  the tangent value of every row is \<open>slope * x + (f0 - slope * x0)\<close> in JavaScript
  arithmetic.  The slope is used as evaluated: there is no fallback to 0, and a \<open>NaN\<close>
  slope makes every tangent value \<open>NaN\<close>.
\<close>

theorem generateData_tangent_line:
  assumes "generateData ev func derivative domain tp = Inr data" and "s \<in> set data"
  shows "\<exists>slope f0. ev derivative tp = Inr slope \<and> ev func tp = Inr f0 \<and>
           s_tangent s =
             js_add (js_mul (js_number slope) (Fin (s_x s)))
               (js_sub (js_number f0) (js_mul (js_number slope) (Fin tp))) \<and>
           (isNaN (js_number slope) \<longrightarrow> isNaN (s_tangent s))"
proof -
  from generateData_row [OF assms] obtain slope f0 i where
    sl: "ev derivative tp = Inr slope" and f0: "ev func tp = Inr f0" and
    p: "generateData_point ev func derivative slope (tangent_intercept f0 slope tp)
       (grid domain generateData_points i) = Some s"
    by blast
  from generateData_point_Some [OF p]
  have t: "s_tangent s =
      js_add (js_mul (js_number slope) (Fin (s_x s)))
        (js_sub (js_number f0) (js_mul (js_number slope) (Fin tp)))"
    by (simp add: tangent_intercept_def)
  have "isNaN (s_tangent s)" if "isNaN (js_number slope)"
    using that unfolding t by (simp add: isNaN_js_mul_left)
  with sl f0 t show ?thesis by blast
qed

text \<open>
  C9 (witness).  \<open>f = x\<close> with the derivative text \<open>1/x\<close> and the tangent point 1: slope
  1, intercept 0, and the row at \<open>x = -10\<close> has the tangent value \<open>-10\<close>.
\<close>

theorem generateData_tangent_line_witness:
  "demo_evaluate ''1/x'' 1 = Inr (Num (Fin 1)) \<and> demo_evaluate ''x'' 1 = Inr (Num (Fin 1)) \<and>
   (case generateData demo_evaluate ''x'' ''1/x'' (- 10, 10) 1 of
      Inl e \<Rightarrow> False
    | Inr data \<Rightarrow>
        \<lparr>s_x = - 10, s_y = Num (Fin (- 10)), s_dy = Num (Fin (- (1 / 10))),
          s_tangent = Fin (- 10)\<rparr> \<in> set data) \<and>
   Fin (- 10) = js_add (js_mul (Fin 1) (Fin (- 10))) (js_sub (Fin 1) (js_mul (Fin 1) (Fin 1)))"
proof -
  let ?row = "\<lparr>s_x = - 10, s_y = Num (Fin (- 10)), s_dy = Num (Fin (- (1 / 10))),
               s_tangent = Fin (- 10)\<rparr>"
  have g: "grid (- 10, 10) generateData_points 0 = - 10"
    by (simp add: grid_def)
  have "generateData_point demo_evaluate ''x'' ''1/x'' (Num (Fin 1))
          (tangent_intercept (Num (Fin 1)) (Num (Fin 1)) 1)
          (grid (- 10, 10) generateData_points 0)
        = Some ?row"
    unfolding g
    by (simp add: generateData_point_def demo_evaluate_def tangent_intercept_def js_sub_def)
  then have "\<exists>data. generateData demo_evaluate ''x'' ''1/x'' (- 10, 10) 1 = Inr data \<and>
      ?row \<in> set data"
    by (rule generateData_row_present [rotated 4]) (simp_all add: demo_evaluate_def)
  then obtain data where d: "generateData demo_evaluate ''x'' ''1/x'' (- 10, 10) 1 = Inr data"
    and m: "?row \<in> set data"
    by blast
  from generateData_tangent_line [OF d m]
  have "s_tangent ?row =
      js_add (js_mul (Fin 1) (Fin (s_x ?row))) (js_sub (Fin 1) (js_mul (Fin 1) (Fin 1)))"
    by (auto simp add: demo_evaluate_def)
  with d m show ?thesis by (simp add: demo_evaluate_def)
qed

subsection \<open>Finite samples\<close>

text \<open>
  C8 (counterexample).  The claim says that for \<open>1/x\<close> on a domain spanning 0 the grid
  point at, or nearest to, the singularity is absent.  On the range \<open>[-1, 79]\<close> the
  step is 0.16 and 0 is not a grid point; its two neighbours on the grid, \<open>-0.04\<close> and
  \<open>0.12\<close>, have the finite values \<open>-25\<close> and \<open>25/3\<close>, and both are in the result of
  \<open>calculatePoints\<close>.
\<close>

theorem calculatePoints_nearest_counterexample:
  "grid (- 1, 79) calculatePoints_default 6 = - (1 / 25) \<and>
   grid (- 1, 79) calculatePoints_default 7 = 3 / 25 \<and>
   (case calculatePoints demo_evaluate ''1/x'' (- 1, 79) calculatePoints_default of
      Inl e \<Rightarrow> False
    | Inr pts \<Rightarrow>
        \<lparr>pt_x = - (1 / 25), pt_y = Num (Fin (- 25))\<rparr> \<in> set pts \<and>
        \<lparr>pt_x = 3 / 25, pt_y = Num (Fin (25 / 3))\<rparr> \<in> set pts)"
proof -
  have g6: "grid (- 1, 79) calculatePoints_default 6 = - (1 / 25)"
    and g7: "grid (- 1, 79) calculatePoints_default 7 = 3 / 25"
    by (simp_all add: grid_def calculatePoints_default_def)
  have k6: "calculatePoints_keep demo_evaluate ''1/x'' (grid (- 1, 79) calculatePoints_default 6)
      = Some \<lparr>pt_x = - (1 / 25), pt_y = Num (Fin (- 25))\<rparr>"
    unfolding g6 by (simp add: calculatePoints_keep_def demo_evaluate_def)
  have k7: "calculatePoints_keep demo_evaluate ''1/x'' (grid (- 1, 79) calculatePoints_default 7)
      = Some \<lparr>pt_x = 3 / 25, pt_y = Num (Fin (25 / 3))\<rparr>"
    unfolding g7 by (simp add: calculatePoints_keep_def demo_evaluate_def)
  obtain pts where
    pts: "calculatePoints demo_evaluate ''1/x'' (- 1, 79) calculatePoints_default = Inr pts"
    by (simp add: calculatePoints_eq)
  have "\<lparr>pt_x = - (1 / 25), pt_y = Num (Fin (- 25))\<rparr> \<in> set pts"
    unfolding calculatePoints_mem [OF pts]
    using k6 by (intro exI [of _ 6]) (simp add: calculatePoints_default_def)
  moreover have "\<lparr>pt_x = 3 / 25, pt_y = Num (Fin (25 / 3))\<rparr> \<in> set pts"
    unfolding calculatePoints_mem [OF pts]
    using k7 by (intro exI [of _ 7]) (simp add: calculatePoints_default_def)
  ultimately show ?thesis
    using g6 g7 pts by simp
qed

text \<open>
  C8 (amended).  Every point in the result of \<open>calculatePoints\<close> has a finite value,
  below 100 in magnitude, which is the value of the expression at the point's \<open>x\<close>;
  every row of \<open>generateData\<close> has a finite \<open>y\<close>, the value of the expression at the
  row's \<open>x\<close>.  Hence an \<open>x0\<close> at which the expression has no finite value, such as a
  grid point lying exactly on the singularity of \<open>1/x\<close>, is the \<open>x\<close> of no point and of
  no row.  Every grid point of \<open>calculatePoints\<close> whose value is finite and below 100 in
  magnitude is kept, next to the singularity as anywhere else.
\<close>

theorem sampler_values_finite:
  assumes "calculatePoints ev func rng n = Inr pts"
    and "generateData ev func derivative domain tp = Inr data"
  shows "(\<forall>p \<in> set pts. js_isFinite (pt_y p) \<and> \<not> js_isNaN (pt_y p) \<and>
            js_lt (js_abs (js_number (pt_y p))) (Fin 100) \<and>
            ev func (pt_x p) = Inr (pt_y p)) \<and>
         (\<forall>s \<in> set data. js_isFinite (s_y s) \<and> \<not> js_isNaN (s_y s) \<and>
            ev func (s_x s) = Inr (s_y s)) \<and>
         (\<forall>x0. (\<forall>v. ev func x0 = Inr v \<longrightarrow> \<not> js_isFinite v) \<longrightarrow>
            x0 \<notin> pt_x ` set pts \<and> x0 \<notin> s_x ` set data) \<and>
         (\<forall>i y. i \<le> n \<and> ev func (grid rng n i) = Inr y \<and> js_isFinite y \<and>
                js_lt (js_abs (js_number y)) (Fin 100) \<longrightarrow>
            \<lparr>pt_x = grid rng n i, pt_y = y\<rparr> \<in> set pts)"
proof -
  have pts: "js_isFinite (pt_y p) \<and> \<not> js_isNaN (pt_y p) \<and>
      js_lt (js_abs (js_number (pt_y p))) (Fin 100) \<and>
      ev func (pt_x p) = Inr (pt_y p)" if "p \<in> set pts" for p
  proof -
    from that obtain i where
      "calculatePoints_keep ev func (grid rng n i) = Some p"
      unfolding calculatePoints_mem [OF assms(1)] by blast
    from calculatePoints_keep_Some [OF this] show ?thesis
      by (simp add: js_isFinite_not_js_isNaN)
  qed
  have data: "js_isFinite (s_y s) \<and> \<not> js_isNaN (s_y s) \<and> ev func (s_x s) = Inr (s_y s)"
    if "s \<in> set data" for s
  proof -
    from generateData_row [OF assms(2) that] obtain slope f0 i where
      "generateData_point ev func derivative slope (tangent_intercept f0 slope tp)
         (grid domain generateData_points i) = Some s"
      by blast
    from generateData_point_Some [OF this] show ?thesis
      by (simp add: js_isFinite_not_js_isNaN)
  qed
  have absent: "x0 \<notin> pt_x ` set pts \<and> x0 \<notin> s_x ` set data"
    if "\<forall>v. ev func x0 = Inr v \<longrightarrow> \<not> js_isFinite v" for x0
    using that pts data by blast
  have kept: "\<lparr>pt_x = grid rng n i, pt_y = y\<rparr> \<in> set pts"
    if "i \<le> n \<and> ev func (grid rng n i) = Inr y \<and> js_isFinite y \<and>
        js_lt (js_abs (js_number y)) (Fin 100)" for i y
  proof -
    have "calculatePoints_keep ev func (grid rng n i) = Some \<lparr>pt_x = grid rng n i, pt_y = y\<rparr>"
      using that by (simp add: calculatePoints_keep_def)
    with that show ?thesis
      unfolding calculatePoints_mem [OF assms(1)] by blast
  qed
  from pts data absent kept show ?thesis by blast
qed

text \<open>
  C8 (witness).  \<open>1/x\<close> on \<open>[-10, 10]\<close>: the grid point 250 of \<open>calculatePoints\<close> is
  \<open>x = 0\<close>, where the value is \<open>Infinity\<close>; the end point \<open>x = -10\<close> is in both results
  and \<open>x = 0\<close> is in neither.
\<close>

theorem sampler_values_finite_witness:
  "demo_evaluate ''1/x'' (grid (- 10, 10) calculatePoints_default 250) = Inr (Num PInf) \<and>
   (case calculatePoints demo_evaluate ''1/x'' (- 10, 10) calculatePoints_default of
      Inl e \<Rightarrow> False
    | Inr pts \<Rightarrow>
        (case generateData demo_evaluate ''1/x'' [] (- 10, 10) 1 of
           Inl e \<Rightarrow> False
         | Inr data \<Rightarrow>
             \<lparr>pt_x = - 10, pt_y = Num (Fin (- (1 / 10)))\<rparr> \<in> set pts \<and>
             \<lparr>s_x = - 10, s_y = Num (Fin (- (1 / 10))), s_dy = Num (Fin 0), s_tangent = NaN\<rparr>
               \<in> set data \<and>
             grid (- 10, 10) calculatePoints_default 250 \<notin> pt_x ` set pts \<and>
             grid (- 10, 10) calculatePoints_default 250 \<notin> s_x ` set data))"
proof -
  let ?row = "\<lparr>s_x = - 10, s_y = Num (Fin (- (1 / 10))), s_dy = Num (Fin 0), s_tangent = NaN\<rparr>"
  have g: "grid (- 10, 10) calculatePoints_default 250 = 0"
    by (simp add: grid_def calculatePoints_default_def)
  have inf: "demo_evaluate ''1/x'' (grid (- 10, 10) calculatePoints_default 250) = Inr (Num PInf)"
    unfolding g by (simp add: demo_evaluate_def signed_inf_def)
  have "calculatePoints_keep demo_evaluate ''1/x'' (grid (- 10, 10) calculatePoints_default 0)
      = Some \<lparr>pt_x = - 10, pt_y = Num (Fin (- (1 / 10)))\<rparr>"
    by (simp add: grid_def calculatePoints_keep_def demo_evaluate_def)
  from calculatePoints_point_present [OF _ this]
  obtain pts where
    pts: "calculatePoints demo_evaluate ''1/x'' (- 10, 10) calculatePoints_default = Inr pts"
    and p: "\<lparr>pt_x = - 10, pt_y = Num (Fin (- (1 / 10)))\<rparr> \<in> set pts"
    by auto
  have "generateData_point demo_evaluate ''1/x'' [] (NonNum False NaN)
          (tangent_intercept (Num (Fin 1)) (NonNum False NaN) 1)
          (grid (- 10, 10) generateData_points 0) = Some ?row"
    by (simp add: grid_def generateData_point_def demo_evaluate_def tangent_intercept_def
        js_sub_def)
  then have "\<exists>data. generateData demo_evaluate ''1/x'' [] (- 10, 10) 1 = Inr data \<and>
      ?row \<in> set data"
    by (rule generateData_row_present [rotated 4]) (simp_all add: demo_evaluate_def)
  then obtain data where
    data: "generateData demo_evaluate ''1/x'' [] (- 10, 10) 1 = Inr data"
    and r: "?row \<in> set data"
    by blast
  from sampler_values_finite [OF pts data] inf
  have "grid (- 10, 10) calculatePoints_default 250 \<notin> pt_x ` set pts \<and>
        grid (- 10, 10) calculatePoints_default 250 \<notin> s_x ` set data"
    by simp
  with pts data p r inf show ?thesis by simp
qed

subsection \<open>Recomputation and the animation\<close>

text \<open>\<open>calculateDerivative\<close> writes the two sample lists and nothing else.\<close>

lemma calculateDerivative_try_fields:
  assumes "calculateDerivative_try rnd ev s = Inr s'"
  shows "\<exists>pts dpts. s' = s\<lparr>points := pts, derivativePoints := dpts\<rparr>"
proof (cases "activeTab s = Custom \<and> js_trim (customFunction s) = []")
  case True
  with assms have "s' = s\<lparr>points := [], derivativePoints := []\<rparr>"
    by (simp add: calculateDerivative_try_def)
  then show ?thesis by blast
next
  case False
  with assms obtain funcPoints derPoints where
    "s' = s\<lparr>points := funcPoints, derivativePoints := derPoints\<rparr>"
    by (auto simp add: calculateDerivative_try_def split: sum.splits)
  then show ?thesis by blast
qed

lemma calculateDerivative_fields:
  "\<exists>pts dpts. calculateDerivative rnd ev s = s\<lparr>points := pts, derivativePoints := dpts\<rparr>"
proof (cases "calculateDerivative_try rnd ev s")
  case (Inl e)
  then have "calculateDerivative rnd ev s = s\<lparr>points := [], derivativePoints := []\<rparr>"
    by (simp add: calculateDerivative_def)
  then show ?thesis by blast
next
  case (Inr s')
  with calculateDerivative_try_fields [OF Inr] show ?thesis
    by (simp add: calculateDerivative_def)
qed

lemma calculateDerivative_animationProgress:
  "animationProgress (calculateDerivative rnd ev s) = animationProgress s"
proof -
  obtain pts dpts where
    "calculateDerivative rnd ev s = s\<lparr>points := pts, derivativePoints := dpts\<rparr>"
    using calculateDerivative_fields by blast
  then show ?thesis by simp
qed

lemma useEffect_recalculate_animationProgress:
  "animationProgress (useEffect_recalculate rnd ev before after) = animationProgress after"
  by (simp add: useEffect_recalculate_def calculateDerivative_animationProgress)

text \<open>
  C3 (counterexample).  With the animation running at progress \<open>1/2\<close>, the domain is
  changed from \<open>[-10, 10]\<close> to \<open>[-5, 5]\<close> and the effect recomputes the samples; the
  progress afterwards is still \<open>1/2\<close>, not 0.
\<close>

theorem domain_change_progress_counterexample:
  "viewRange (initial_state\<lparr>isAnimating := True, animationProgress := 1 / 2\<rparr>) = (- 10, 10) \<and>
   viewRange (useEffect_recalculate binary64 demo_evaluate
       (initial_state\<lparr>isAnimating := True, animationProgress := 1 / 2\<rparr>)
       (handleRangeChange (- 5, 5)
          (initial_state\<lparr>isAnimating := True, animationProgress := 1 / 2\<rparr>))) = (- 5, 5) \<and>
   animationProgress (useEffect_recalculate binary64 demo_evaluate
       (initial_state\<lparr>isAnimating := True, animationProgress := 1 / 2\<rparr>)
       (handleRangeChange (- 5, 5)
          (initial_state\<lparr>isAnimating := True, animationProgress := 1 / 2\<rparr>))) = 1 / 2"
proof -
  let ?s = "initial_state\<lparr>isAnimating := True, animationProgress := 1 / 2\<rparr>"
  let ?s' = "handleRangeChange (- 5, 5) ?s"
  have changed: "effect_dependencies ?s' \<noteq> effect_dependencies ?s"
    by (simp add: effect_dependencies_def handleRangeChange_def initial_state_def)
  obtain pts dpts where
    "calculateDerivative binary64 demo_evaluate ?s' =
       ?s'\<lparr>points := pts, derivativePoints := dpts\<rparr>"
    using calculateDerivative_fields by blast
  with changed have "useEffect_recalculate binary64 demo_evaluate ?s ?s' =
      ?s'\<lparr>points := pts, derivativePoints := dpts\<rparr>"
    by (simp add: useEffect_recalculate_def)
  then show ?thesis
    by (simp add: handleRangeChange_def initial_state_def)
qed

text \<open>
  C3 (amended).  A change of the domain (\<open>handleRangeChange\<close>) or of the expression
  (\<open>handleCustomFunctionChange\<close>, \<open>handleFunctionChange\<close>, \<open>handleTabChange\<close>), followed
  by the effect that recomputes the samples, leaves \<open>animationProgress\<close> as it was,
  whether or not the animation is running; nothing resets it.
\<close>

theorem change_keeps_animationProgress:
  "animationProgress (useEffect_recalculate rnd ev s (handleRangeChange values s))
     = animationProgress s \<and>
   animationProgress (useEffect_recalculate rnd ev s (handleCustomFunctionChange val s))
     = animationProgress s \<and>
   animationProgress (useEffect_recalculate rnd ev s (handleFunctionChange val s))
     = animationProgress s \<and>
   animationProgress (useEffect_recalculate rnd ev s (handleTabChange rnd ev t s))
     = animationProgress s"
  by (simp add: useEffect_recalculate_animationProgress handleRangeChange_def
      handleCustomFunctionChange_def handleFunctionChange_def handleTabChange_def Let_def
      split: option.split)

text \<open>
  C3 (witness).  With the animation stopped at progress \<open>3/4\<close>, entering the expression
  \<open>1/x\<close> leaves the progress at \<open>3/4\<close>.
\<close>

theorem change_keeps_animationProgress_witness:
  "animationProgress (initial_state\<lparr>animationProgress := 3 / 4\<rparr>) = 3 / 4 \<and>
   animationProgress (useEffect_recalculate binary64 demo_evaluate
       (initial_state\<lparr>animationProgress := 3 / 4\<rparr>)
       (handleCustomFunctionChange ''1/x'' (initial_state\<lparr>animationProgress := 3 / 4\<rparr>)))
     = 3 / 4"
  using change_keeps_animationProgress
    [of binary64 demo_evaluate "initial_state\<lparr>animationProgress := 3 / 4\<rparr>" _ "''1/x''"]
  by simp

text \<open>
  C5.  One tick of \<open>animate\<close>, from a progress in \<open>[0, 1]\<close>, with a positive speed and
  a timestamp not before the stored one, so that the elapsed time is not negative: the
  new progress is in \<open>[0, 1]\<close>; it is the old progress plus
  \<open>elapsed / (5000 / speed)\<close> when that sum is at most 1, and 0 when the sum exceeds 1.
\<close>

theorem animate_progress_bounds:
  assumes "0 \<le> animationProgress s" and "animationProgress s \<le> 1"
    and "0 < animationSpeed s"
    and "case animationRef s of None \<Rightarrow> True | Some r \<Rightarrow> r \<le> timestamp"
  shows "0 \<le> animationProgress (animate timestamp s) \<and>
         animationProgress (animate timestamp s) \<le> 1 \<and>
         (\<exists>elapsed. 0 \<le> elapsed \<and>
            elapsed = timestamp - (case animationRef s of
                                     None \<Rightarrow> timestamp
                                   | Some r \<Rightarrow> if r = 0 then timestamp else r) \<and>
            animationProgress (animate timestamp s) =
              (if animationProgress s + elapsed / (5000 / animationSpeed s) > 1 then 0
               else animationProgress s + elapsed / (5000 / animationSpeed s)))"
proof -
  define elapsed where
    "elapsed = timestamp - (case animationRef s of
                              None \<Rightarrow> timestamp
                            | Some r \<Rightarrow> if r = 0 then timestamp else r)"
  have nonneg: "0 \<le> elapsed"
    using assms(4) by (simp add: elapsed_def split: option.splits)
  have step: "0 \<le> elapsed / (5000 / animationSpeed s)"
    using nonneg assms(3) by simp
  have eq: "animationProgress (animate timestamp s) =
      (if animationProgress s + elapsed / (5000 / animationSpeed s) > 1 then 0
       else animationProgress s + elapsed / (5000 / animationSpeed s))"
    by (simp add: animate_def elapsed_def Let_def)
  have "0 \<le> animationProgress (animate timestamp s)"
    unfolding eq using assms(1) step by simp
  moreover have "animationProgress (animate timestamp s) \<le> 1"
    unfolding eq by simp
  ultimately show ?thesis
    using nonneg eq elapsed_def by blast
qed

text \<open>
  C5 (witness).  At speed 1, one second after the stored timestamp: from \<open>0.9\<close> the sum
  \<open>1.1\<close> wraps to 0; half a second after it, \<open>0.5\<close> advances to \<open>0.6\<close>.
\<close>

theorem animate_progress_bounds_witness:
  "animationProgress
     (animate 2000 (initial_state\<lparr>animationProgress := 9 / 10, animationRef := Some 1000\<rparr>)) = 0 \<and>
   animationProgress
     (animate 1500 (initial_state\<lparr>animationProgress := 1 / 2, animationRef := Some 1000\<rparr>))
     = 3 / 5"
  using
    animate_progress_bounds
      [of "initial_state\<lparr>animationProgress := 9 / 10, animationRef := Some 1000\<rparr>" 2000]
    animate_progress_bounds
      [of "initial_state\<lparr>animationProgress := 1 / 2, animationRef := Some 1000\<rparr>" 1500]
  by (simp add: initial_state_def)

subsection \<open>Viewport\<close>

lemma effective_range_exact:
  "getEffectiveViewRange exact_arithmetic s =
     ((fst (viewRange s) + snd (viewRange s)) / 2 + pan_x (panOffset s)
        - (snd (viewRange s) - fst (viewRange s)) / zoomLevel s / 2,
      (fst (viewRange s) + snd (viewRange s)) / 2 + pan_x (panOffset s)
        + (snd (viewRange s) - fst (viewRange s)) / zoomLevel s / 2)"
  by (simp add: getEffectiveViewRange_def exact_arithmetic_def Let_def)

lemma effective_range_width:
  "snd (getEffectiveViewRange exact_arithmetic s) - fst (getEffectiveViewRange exact_arithmetic s) =
     (snd (viewRange s) - fst (viewRange s)) / zoomLevel s"
  by (simp add: effective_range_exact)

lemma effective_range_width_pos:
  assumes "fst (viewRange s) < snd (viewRange s)" and "0 < zoomLevel s"
  shows "0 < snd (getEffectiveViewRange exact_arithmetic s)
           - fst (getEffectiveViewRange exact_arithmetic s)"
  unfolding effective_range_width using assms by simp

text \<open>
  The round trip for whatever range \<open>getEffectiveViewRange\<close> returns, provided it has a
  positive width.
\<close>

lemma pointer_inverse_mapToSVG:
  assumes "fst (getEffectiveViewRange rnd s) < snd (getEffectiveViewRange rnd s)"
    and "80 < svgWidth s"
    and "fst (getEffectiveViewRange rnd s) \<le> pt_x p"
    and "pt_x p \<le> snd (getEffectiveViewRange rnd s)"
  shows "\<exists>px. svg_x (mapToSVG s p (getEffectiveViewRange rnd s)) = Fin px \<and>
           handleMouseMove_x rnd s px = Fin (pt_x p) \<and>
           40 \<le> px \<and> px \<le> svgWidth s - 40"
proof -
  define lo where "lo = fst (getEffectiveViewRange rnd s)"
  define w where "w = snd (getEffectiveViewRange rnd s) - fst (getEffectiveViewRange rnd s)"
  define gw where "gw = svgWidth s - 2 * 40"
  define px where "px = 40 + (pt_x p - lo) * (gw / w)"
  have w: "0 < w"
    unfolding w_def using assms(1) by simp
  have gw: "0 < gw"
    unfolding gw_def using assms(2) by simp
  have scale: "0 < gw / w"
    using w gw by simp
  have xScale: "js_div (Fin (svgWidth s - 2 * 40))
        (Fin (snd (getEffectiveViewRange rnd s) - fst (getEffectiveViewRange rnd s)))
      = Fin (gw / w)"
    using w by (simp add: gw_def w_def)
  have forward: "svg_x (mapToSVG s p (getEffectiveViewRange rnd s)) = Fin px"
    unfolding mapToSVG_def Let_def xScale by (simp add: px_def lo_def)
  have "handleMouseMove_x rnd s px = js_add (Fin lo) (js_div (Fin (px - 40)) (Fin (gw / w)))"
    unfolding handleMouseMove_x_def Let_def xScale by (simp add: lo_def)
  also have "\<dots> = Fin (lo + (px - 40) / (gw / w))"
    using w gw by simp
  also have "lo + (px - 40) / (gw / w) = pt_x p"
    using w gw by (simp add: px_def)
  finally have inv: "handleMouseMove_x rnd s px = Fin (pt_x p)" .
  have d0: "0 \<le> pt_x p - lo" and d1: "pt_x p - lo \<le> w"
    using assms(3,4) by (simp_all add: lo_def w_def)
  have "0 \<le> (pt_x p - lo) * (gw / w)"
    using d0 scale by (intro mult_nonneg_nonneg) simp_all
  moreover have "(pt_x p - lo) * (gw / w) \<le> w * (gw / w)"
    using d1 scale by (intro mult_right_mono) simp_all
  moreover have "w * (gw / w) = gw"
    using w by simp
  ultimately have "40 \<le> px" and "px \<le> svgWidth s - 40"
    by (simp_all add: px_def gw_def)
  with forward inv show ?thesis by blast
qed

text \<open>
  C6.  In exact real arithmetic, for a base range with \<open>min < max\<close>, a positive zoom and
  a positive drawable width (the padding is 40 on each side), and a point whose \<open>x\<close>
  lies in the effective range: \<open>mapToSVG\<close> gives a finite pixel \<open>x\<close> inside the
  drawable area, and the pointer inverse of \<open>handleMouseMove\<close> maps that pixel back to
  exactly the point's \<open>x\<close>.
\<close>

theorem viewport_round_trip:
  assumes "fst (viewRange s) < snd (viewRange s)" and "0 < zoomLevel s"
    and "80 < svgWidth s"
    and "fst (getEffectiveViewRange exact_arithmetic s) \<le> pt_x p"
    and "pt_x p \<le> snd (getEffectiveViewRange exact_arithmetic s)"
  shows "\<exists>px. svg_x (mapToSVG s p (getEffectiveViewRange exact_arithmetic s)) = Fin px \<and>
           handleMouseMove_x exact_arithmetic s px = Fin (pt_x p) \<and>
           40 \<le> px \<and> px \<le> svgWidth s - 40"
proof -
  have "fst (getEffectiveViewRange exact_arithmetic s)
      < snd (getEffectiveViewRange exact_arithmetic s)"
    using effective_range_width_pos [OF assms(1,2)] by simp
  then show ?thesis
    using assms(3,4,5) by (rule pointer_inverse_mapToSVG)
qed

text \<open>
  C6 (witness).  Width 880, range \<open>[-10, 10]\<close>: \<open>x = 5\<close> maps to pixel 640, and pixel 640
  maps back to 5.
\<close>

theorem viewport_round_trip_witness:
  "getEffectiveViewRange exact_arithmetic (initial_state\<lparr>svgWidth := 880, svgHeight := 480\<rparr>)
     = (- 10, 10) \<and>
   svg_x (mapToSVG (initial_state\<lparr>svgWidth := 880, svgHeight := 480\<rparr>)
            \<lparr>pt_x = 5, pt_y = Num (Fin 0)\<rparr>
            (getEffectiveViewRange exact_arithmetic
               (initial_state\<lparr>svgWidth := 880, svgHeight := 480\<rparr>)))
     = Fin 640 \<and>
   handleMouseMove_x exact_arithmetic (initial_state\<lparr>svgWidth := 880, svgHeight := 480\<rparr>) 640
     = Fin 5"
proof -
  let ?s = "initial_state\<lparr>svgWidth := 880, svgHeight := 480\<rparr>"
  let ?p = "\<lparr>pt_x = 5, pt_y = Num (Fin 0)\<rparr>"
  have r: "getEffectiveViewRange exact_arithmetic ?s = (- 10, 10)"
    by (simp add: effective_range_exact initial_state_def)
  have f: "svg_x (mapToSVG ?s ?p (getEffectiveViewRange exact_arithmetic ?s)) = Fin 640"
    unfolding r by (simp add: mapToSVG_def initial_state_def)
  have "\<exists>px. svg_x (mapToSVG ?s ?p (getEffectiveViewRange exact_arithmetic ?s)) = Fin px \<and>
           handleMouseMove_x exact_arithmetic ?s px = Fin (pt_x ?p) \<and>
           40 \<le> px \<and> px \<le> svgWidth ?s - 40"
    by (rule viewport_round_trip) (simp_all add: r, simp_all add: initial_state_def)
  with f have "handleMouseMove_x exact_arithmetic ?s 640 = Fin 5" by auto
  with r f show ?thesis by simp
qed

subsection \<open>Zoom in doubles\<close>

text \<open>The zoom handlers change the zoom level only.\<close>

lemma handleWheel_out_zoom:
  assumes "binary64 (1 / 10) = t" and "binary64 (z - t) = z'"
    and "1 / 2 \<le> z'" and "z' \<le> 5"
  shows "handleWheel binary64 1 (initial_state\<lparr>zoomLevel := z\<rparr>)
           = initial_state\<lparr>zoomLevel := z'\<rparr>"
  using assms by (simp add: handleWheel_def Let_def)

lemma handleZoomIn_zoom:
  assumes "binary64 (z + 1 / 4) = z'" and "z' \<le> 5"
  shows "handleZoomIn binary64 (initial_state\<lparr>zoomLevel := z\<rparr>)
           = initial_state\<lparr>zoomLevel := z'\<rparr>"
  using assms by (simp add: handleZoomIn_def)

lemma handleZoomOut_zoom:
  assumes "binary64 (z - 1 / 4) = z'" and "1 / 2 \<le> z'"
  shows "handleZoomOut binary64 (initial_state\<lparr>zoomLevel := z\<rparr>)
           = initial_state\<lparr>zoomLevel := z'\<rparr>"
  using assms by (simp add: handleZoomOut_def)

lemma initial_state_zoom: "initial_state = initial_state\<lparr>zoomLevel := 1\<rparr>"
  by (simp add: initial_state_def)

lemma binary64_tenth: "binary64 (1 / 10) = 7205759403792794 / 2 ^ 56"
  by (rule binary64_valueI [of _ 7205759403792794 56]) (simp_all add: rne_def Let_def)

text \<open>
  The intermediate zoom levels are \<open>0.9\<close>, \<open>1.15\<close>, \<open>1.0499999999999998\<close> and
  \<open>0.9499999999999998\<close>; the sum \<open>0.9 + 0.25\<close> is a tie and goes to the even neighbour.
\<close>

lemma zoomed_common_eq:
  "zoomed_common = initial_state\<lparr>zoomLevel := 8556839292003941 / 2 ^ 53\<rparr>"
proof -
  have a: "binary64 (1 - 7205759403792794 / 2 ^ 56) = 8106479329266893 / 2 ^ 53"
    by (rule binary64_valueI [of _ 8106479329266893 53]) (simp_all add: rne_def Let_def)
  have b: "binary64 (8106479329266893 / 2 ^ 53 + 1 / 4) = 5179139571476070 / 2 ^ 52"
    by (rule binary64_valueI [of _ 5179139571476070 52]) (simp_all add: rne_def Let_def)
  have c: "binary64 (5179139571476070 / 2 ^ 52 - 7205759403792794 / 2 ^ 56)
             = 4728779608739020 / 2 ^ 52"
    by (rule binary64_valueI [of _ 4728779608739020 52]) (simp_all add: rne_def Let_def)
  have d: "binary64 (4728779608739020 / 2 ^ 52 - 7205759403792794 / 2 ^ 56)
             = 8556839292003941 / 2 ^ 53"
    by (rule binary64_valueI [of _ 8556839292003941 53]) (simp_all add: rne_def Let_def)
  have s1: "handleWheel binary64 1 (initial_state\<lparr>zoomLevel := 1\<rparr>) =
      initial_state\<lparr>zoomLevel := 8106479329266893 / 2 ^ 53\<rparr>"
    by (rule handleWheel_out_zoom [OF binary64_tenth a]) simp_all
  have s2: "handleZoomIn binary64 (initial_state\<lparr>zoomLevel := 8106479329266893 / 2 ^ 53\<rparr>) =
      initial_state\<lparr>zoomLevel := 5179139571476070 / 2 ^ 52\<rparr>"
    by (rule handleZoomIn_zoom [OF b]) simp
  have s3: "handleWheel binary64 1 (initial_state\<lparr>zoomLevel := 5179139571476070 / 2 ^ 52\<rparr>) =
      initial_state\<lparr>zoomLevel := 4728779608739020 / 2 ^ 52\<rparr>"
    by (rule handleWheel_out_zoom [OF binary64_tenth c]) simp_all
  have s4: "handleWheel binary64 1 (initial_state\<lparr>zoomLevel := 4728779608739020 / 2 ^ 52\<rparr>) =
      initial_state\<lparr>zoomLevel := 8556839292003941 / 2 ^ 53\<rparr>"
    by (rule handleWheel_out_zoom [OF binary64_tenth d]) simp_all
  have "zoomed_common =
      handleWheel binary64 1 (handleWheel binary64 1
        (handleZoomIn binary64 (handleWheel binary64 1 (initial_state\<lparr>zoomLevel := 1\<rparr>))))"
    unfolding zoomed_common_def using initial_state_zoom by simp
  then show ?thesis
    by (simp only: s1 s2 s3 s4)
qed

text \<open>Both runs leave the initial state with the zoom level changed.\<close>

lemma zoomed_high_eq: "zoomed_high = initial_state\<lparr>zoomLevel := zoom_high\<rparr>"
proof -
  have e: "binary64 (8556839292003941 / 2 ^ 53 - 7205759403792794 / 2 ^ 56)
             = 7656119366529842 / 2 ^ 53"
    by (rule binary64_valueI [of _ 7656119366529842 53]) (simp_all add: rne_def Let_def)
  have "handleWheel binary64 1 (initial_state\<lparr>zoomLevel := 8556839292003941 / 2 ^ 53\<rparr>) =
      initial_state\<lparr>zoomLevel := 7656119366529842 / 2 ^ 53\<rparr>"
    by (rule handleWheel_out_zoom [OF binary64_tenth e]) simp_all
  then show ?thesis
    by (simp only: zoomed_high_def zoomed_common_eq zoom_high_def)
qed

lemma zoomed_low_eq: "zoomed_low = initial_state\<lparr>zoomLevel := zoom_low\<rparr>"
proof -
  have f: "binary64 (8556839292003941 / 2 ^ 53 + 1 / 4) = 5404319552844594 / 2 ^ 52"
    by (rule binary64_valueI [of _ 5404319552844594 52]) (simp_all add: rne_def Let_def)
  have g: "binary64 (5404319552844594 / 2 ^ 52 - 1 / 4) = 8556839292003940 / 2 ^ 53"
    by (rule binary64_valueI [of _ 8556839292003940 53]) (simp_all add: rne_def Let_def)
  have h: "binary64 (8556839292003940 / 2 ^ 53 - 7205759403792794 / 2 ^ 56)
             = 7656119366529841 / 2 ^ 53"
    by (rule binary64_valueI [of _ 7656119366529841 53]) (simp_all add: rne_def Let_def)
  have s5: "handleZoomIn binary64 (initial_state\<lparr>zoomLevel := 8556839292003941 / 2 ^ 53\<rparr>) =
      initial_state\<lparr>zoomLevel := 5404319552844594 / 2 ^ 52\<rparr>"
    by (rule handleZoomIn_zoom [OF f]) simp
  have s6: "handleZoomOut binary64 (initial_state\<lparr>zoomLevel := 5404319552844594 / 2 ^ 52\<rparr>) =
      initial_state\<lparr>zoomLevel := 8556839292003940 / 2 ^ 53\<rparr>"
    by (rule handleZoomOut_zoom [OF g]) simp
  have s7: "handleWheel binary64 1 (initial_state\<lparr>zoomLevel := 8556839292003940 / 2 ^ 53\<rparr>) =
      initial_state\<lparr>zoomLevel := 7656119366529841 / 2 ^ 53\<rparr>"
    by (rule handleWheel_out_zoom [OF binary64_tenth h]) simp_all
  show ?thesis
    by (simp only: zoomed_low_def zoomed_common_eq zoom_low_def s5 s6 s7)
qed

lemma binary64_twenty: "binary64 20 = 20"
proof -
  have "binary64 20 = 5629499534213120 / 2 ^ 48"
    by (rule binary64_valueI [of _ 5629499534213120 48]) (simp_all add: rne_def Let_def)
  then show ?thesis by simp
qed

text \<open>
  The effective range of the initial domain \<open>[-10, 10]\<close> without pan, from the rounded
  quotient \<open>w\<close> and its half \<open>h\<close>.
\<close>

lemma effective_range_binary64_initial:
  assumes "binary64 (20 / z) = w" and "binary64 (w / 2) = h" and "binary64 h = h"
  shows "getEffectiveViewRange binary64 (initial_state\<lparr>zoomLevel := z\<rparr>) = (- h, h)"
  using assms
  by (simp add: getEffectiveViewRange_def initial_state_def Let_def binary64_twenty
      binary64_minus)

lemma zoomedWidth_low: "binary64 (20 / zoom_low) = 6622940628486025 / 2 ^ 48"
  unfolding zoom_low_def
  by (rule binary64_valueI [of _ 6622940628486025 48]) (simp_all add: rne_def Let_def)

lemma zoomedWidth_high: "binary64 (20 / zoom_high) = 6622940628486025 / 2 ^ 48"
  unfolding zoom_high_def
  by (rule binary64_valueI [of _ 6622940628486025 48]) (simp_all add: rne_def Let_def)

lemma zoomedWidth_half:
  "binary64 (6622940628486025 / 2 ^ 48 / 2) = 6622940628486025 / 2 ^ 49"
  by (rule binary64_valueI [of _ 6622940628486025 49]) (simp_all add: rne_def Let_def)

lemma zoomedWidth_half_double: "binary64 (6622940628486025 / 2 ^ 49) = 6622940628486025 / 2 ^ 49"
  by (rule binary64_valueI [of _ 6622940628486025 49]) (simp_all add: rne_def Let_def)

text \<open>
  C7 (counterexample).  The zoom levels \<open>0.8499999999999998 < 0.8499999999999999\<close> are
  both reached from the initial state by wheel and button events, with the base domain
  \<open>[-10, 10]\<close> and the pan offset unchanged.  For both, \<open>20 / zoom\<close> rounds to the same
  double, and \<open>getEffectiveViewRange\<close> returns the same range,
  \<open>(-11.764705882352944, 11.764705882352944)\<close>: the width at the larger zoom is not
  smaller.
\<close>

theorem effective_range_zoom_counterexample:
  "zoomLevel zoomed_low = zoom_low \<and> zoomLevel zoomed_high = zoom_high \<and>
   zoom_low < zoom_high \<and>
   viewRange zoomed_low = (- 10, 10) \<and> viewRange zoomed_high = (- 10, 10) \<and>
   panOffset zoomed_low = panOffset zoomed_high \<and>
   getEffectiveViewRange binary64 zoomed_low
     = (- (6622940628486025 / 2 ^ 49), 6622940628486025 / 2 ^ 49) \<and>
   getEffectiveViewRange binary64 zoomed_high
     = (- (6622940628486025 / 2 ^ 49), 6622940628486025 / 2 ^ 49)"
proof -
  have "getEffectiveViewRange binary64 (initial_state\<lparr>zoomLevel := zoom_low\<rparr>)
      = (- (6622940628486025 / 2 ^ 49), 6622940628486025 / 2 ^ 49)"
    using zoomedWidth_low zoomedWidth_half zoomedWidth_half_double
    by (rule effective_range_binary64_initial)
  moreover have "getEffectiveViewRange binary64 (initial_state\<lparr>zoomLevel := zoom_high\<rparr>)
      = (- (6622940628486025 / 2 ^ 49), 6622940628486025 / 2 ^ 49)"
    using zoomedWidth_high zoomedWidth_half zoomedWidth_half_double
    by (rule effective_range_binary64_initial)
  moreover have "zoom_low < zoom_high"
    by (simp add: zoom_low_def zoom_high_def)
  moreover have "viewRange (initial_state\<lparr>zoomLevel := z\<rparr>) = (- 10, 10)"
    and "panOffset (initial_state\<lparr>zoomLevel := z\<rparr>) = panOffset initial_state" for z
    by (simp_all add: initial_state_def)
  ultimately show ?thesis
    by (simp add: zoomed_low_eq zoomed_high_eq)
qed

text \<open>
  A rounding that is monotone and keeps 0 never widens the range when the zoom grows;
  \<open>binary64\<close> is such a rounding.
\<close>

lemma effective_range_width_mono:
  assumes mono: "\<And>a b. a \<le> b \<Longrightarrow> rnd a \<le> rnd b" and zero: "rnd 0 = 0"
    and "fst (viewRange s) < snd (viewRange s)" and "0 < z1" and "z1 \<le> z2"
  shows "snd (getEffectiveViewRange rnd (s\<lparr>zoomLevel := z2\<rparr>))
             - fst (getEffectiveViewRange rnd (s\<lparr>zoomLevel := z2\<rparr>))
           \<le> snd (getEffectiveViewRange rnd (s\<lparr>zoomLevel := z1\<rparr>))
             - fst (getEffectiveViewRange rnd (s\<lparr>zoomLevel := z1\<rparr>))"
proof -
  define rw where "rw = rnd (snd (viewRange s) - fst (viewRange s))"
  define c where "c = rnd (rnd (rnd (fst (viewRange s) + snd (viewRange s)) / 2)
                      + pan_x (panOffset s))"
  define h where "h z = rnd (rnd (rw / z) / 2)" for z
  have range: "getEffectiveViewRange rnd (s\<lparr>zoomLevel := z\<rparr>) = (rnd (c - h z), rnd (c + h z))"
    for z
    by (simp add: getEffectiveViewRange_def Let_def rw_def c_def h_def)
  have "rnd 0 \<le> rw"
    unfolding rw_def using assms(3) by (intro mono) simp
  then have rw: "0 \<le> rw" by (simp add: zero)
  have "rw / z2 \<le> rw / z1"
    using rw assms(4,5) by (simp add: frac_le)
  then have "rnd (rw / z2) / 2 \<le> rnd (rw / z1) / 2"
    using mono by simp
  then have h: "h z2 \<le> h z1"
    unfolding h_def by (rule mono)
  have "rnd (c + h z2) \<le> rnd (c + h z1)"
    using h by (intro mono) simp
  moreover have "rnd (c - h z1) \<le> rnd (c - h z2)"
    using h by (intro mono) simp
  ultimately show ?thesis
    unfolding range by simp
qed

text \<open>
  C7 (amended).  For a base range with \<open>min < max\<close> and zoom values \<open>0 < z1 < z2\<close>.  In
  exact arithmetic the effective range is
  \<open>(center - zoomedWidth / 2, center + zoomedWidth / 2)\<close> with
  \<open>center = (min + max) / 2 + panOffset.x\<close> and \<open>zoomedWidth = (max - min) / zoom\<close>, and
  the effective range at \<open>z2\<close> is strictly narrower than at \<open>z1\<close>.  In doubles, where
  each operation of the same expression is rounded, the effective range at \<open>z2\<close> is
  never wider than at \<open>z1\<close>.
\<close>

theorem effective_range_zoom:
  assumes "fst (viewRange s) < snd (viewRange s)" and "0 < z1" and "z1 < z2"
  shows "getEffectiveViewRange exact_arithmetic s =
           ((fst (viewRange s) + snd (viewRange s)) / 2 + pan_x (panOffset s)
              - (snd (viewRange s) - fst (viewRange s)) / zoomLevel s / 2,
            (fst (viewRange s) + snd (viewRange s)) / 2 + pan_x (panOffset s)
              + (snd (viewRange s) - fst (viewRange s)) / zoomLevel s / 2) \<and>
         snd (getEffectiveViewRange exact_arithmetic (s\<lparr>zoomLevel := z2\<rparr>))
             - fst (getEffectiveViewRange exact_arithmetic (s\<lparr>zoomLevel := z2\<rparr>))
           < snd (getEffectiveViewRange exact_arithmetic (s\<lparr>zoomLevel := z1\<rparr>))
             - fst (getEffectiveViewRange exact_arithmetic (s\<lparr>zoomLevel := z1\<rparr>)) \<and>
         snd (getEffectiveViewRange binary64 (s\<lparr>zoomLevel := z2\<rparr>))
             - fst (getEffectiveViewRange binary64 (s\<lparr>zoomLevel := z2\<rparr>))
           \<le> snd (getEffectiveViewRange binary64 (s\<lparr>zoomLevel := z1\<rparr>))
             - fst (getEffectiveViewRange binary64 (s\<lparr>zoomLevel := z1\<rparr>))"
proof (intro conjI)
  show "getEffectiveViewRange exact_arithmetic s =
           ((fst (viewRange s) + snd (viewRange s)) / 2 + pan_x (panOffset s)
              - (snd (viewRange s) - fst (viewRange s)) / zoomLevel s / 2,
            (fst (viewRange s) + snd (viewRange s)) / 2 + pan_x (panOffset s)
              + (snd (viewRange s) - fst (viewRange s)) / zoomLevel s / 2)"
    by (rule effective_range_exact)
next
  have "0 < snd (viewRange s) - fst (viewRange s)"
    using assms(1) by simp
  then have "(snd (viewRange s) - fst (viewRange s)) / z2
      < (snd (viewRange s) - fst (viewRange s)) / z1"
    using assms(2,3) by (simp add: divide_strict_left_mono)
  then show "snd (getEffectiveViewRange exact_arithmetic (s\<lparr>zoomLevel := z2\<rparr>))
             - fst (getEffectiveViewRange exact_arithmetic (s\<lparr>zoomLevel := z2\<rparr>))
           < snd (getEffectiveViewRange exact_arithmetic (s\<lparr>zoomLevel := z1\<rparr>))
             - fst (getEffectiveViewRange exact_arithmetic (s\<lparr>zoomLevel := z1\<rparr>))"
    by (simp add: effective_range_width)
next
  have "z1 \<le> z2" using assms(3) by simp
  with binary64_mono binary64_zero assms(1,2)
  show "snd (getEffectiveViewRange binary64 (s\<lparr>zoomLevel := z2\<rparr>))
             - fst (getEffectiveViewRange binary64 (s\<lparr>zoomLevel := z2\<rparr>))
           \<le> snd (getEffectiveViewRange binary64 (s\<lparr>zoomLevel := z1\<rparr>))
             - fst (getEffectiveViewRange binary64 (s\<lparr>zoomLevel := z1\<rparr>))"
    by (rule effective_range_width_mono)
qed

text \<open>
  C7 (witness).  The initial range \<open>[-10, 10]\<close> at zoom 1 has width 20; at zoom 2 it is
  \<open>[-5, 5]\<close>, of width 10, in exact arithmetic and, these being doubles, in doubles.
\<close>

theorem effective_range_zoom_witness:
  "getEffectiveViewRange exact_arithmetic initial_state = (- 10, 10) \<and>
   getEffectiveViewRange exact_arithmetic (initial_state\<lparr>zoomLevel := 2\<rparr>) = (- 5, 5) \<and>
   snd (getEffectiveViewRange exact_arithmetic (initial_state\<lparr>zoomLevel := 2\<rparr>))
       - fst (getEffectiveViewRange exact_arithmetic (initial_state\<lparr>zoomLevel := 2\<rparr>))
     < snd (getEffectiveViewRange exact_arithmetic (initial_state\<lparr>zoomLevel := 1\<rparr>))
       - fst (getEffectiveViewRange exact_arithmetic (initial_state\<lparr>zoomLevel := 1\<rparr>)) \<and>
   snd (getEffectiveViewRange binary64 (initial_state\<lparr>zoomLevel := 2\<rparr>))
       - fst (getEffectiveViewRange binary64 (initial_state\<lparr>zoomLevel := 2\<rparr>))
     \<le> snd (getEffectiveViewRange binary64 (initial_state\<lparr>zoomLevel := 1\<rparr>))
       - fst (getEffectiveViewRange binary64 (initial_state\<lparr>zoomLevel := 1\<rparr>))"
proof -
  have "fst (viewRange initial_state) < snd (viewRange initial_state)"
    by (simp add: initial_state_def)
  from effective_range_zoom [OF this, of 1 2]
  have "snd (getEffectiveViewRange exact_arithmetic (initial_state\<lparr>zoomLevel := 2\<rparr>))
       - fst (getEffectiveViewRange exact_arithmetic (initial_state\<lparr>zoomLevel := 2\<rparr>))
     < snd (getEffectiveViewRange exact_arithmetic (initial_state\<lparr>zoomLevel := 1\<rparr>))
       - fst (getEffectiveViewRange exact_arithmetic (initial_state\<lparr>zoomLevel := 1\<rparr>))"
    and "snd (getEffectiveViewRange binary64 (initial_state\<lparr>zoomLevel := 2\<rparr>))
       - fst (getEffectiveViewRange binary64 (initial_state\<lparr>zoomLevel := 2\<rparr>))
     \<le> snd (getEffectiveViewRange binary64 (initial_state\<lparr>zoomLevel := 1\<rparr>))
       - fst (getEffectiveViewRange binary64 (initial_state\<lparr>zoomLevel := 1\<rparr>))"
    by simp_all
  moreover have "getEffectiveViewRange exact_arithmetic initial_state = (- 10, 10)"
    by (simp add: effective_range_exact initial_state_def)
  moreover have "getEffectiveViewRange exact_arithmetic (initial_state\<lparr>zoomLevel := 2\<rparr>)
      = (- 5, 5)"
    by (simp add: effective_range_exact initial_state_def)
  ultimately show ?thesis by blast
qed

subsection \<open>The animated path\<close>

lemma createPath_loop_in_range:
  "\<forall>i \<in> set idxs. i < length pts \<Longrightarrow>
   createPath_loop s pts rng idxs path =
     Inr (path @ map (\<lambda>i. LineTo (mapToSVG s (pts ! i) rng)) idxs)"
  by (induction idxs arbitrary: path) simp_all

lemma createPath_loop_out_of_range:
  "\<exists>i \<in> set idxs. length pts \<le> i \<Longrightarrow> createPath_loop s pts rng idxs path = Inl TypeError"
  by (induction idxs arbitrary: path) auto

lemma take_Suc_nth_upt:
  assumes "k < length pts"
  shows "take (Suc k) pts = pts ! 0 # map (\<lambda>i. pts ! i) [1..<Suc k]"
proof -
  have "take (Suc k) pts = map (\<lambda>i. pts ! i) [0..<Suc k]"
    using assms by (intro nth_equalityI) (simp_all del: upt_Suc)
  also have "[0..<Suc k] = 0 # [1..<Suc k]"
    by (simp add: upt_conv_Cons del: upt_Suc)
  finally show ?thesis by simp
qed

text \<open>
  For a progress below 1 the animated path visits the first
  \<open>floor(length * progress) + 1\<close> points, and it is empty when that floor is 0.
\<close>

lemma createPath_animated_prefix:
  assumes "pts \<noteq> []" and "0 \<le> animationProgress s" and "animationProgress s < 1"
  shows "createPath s pts rng True =
           Inr (if \<lfloor>real (length pts) * animationProgress s\<rfloor> \<le> 0 then []
                else map MoveTo (map (\<lambda>p. mapToSVG s p rng) (take 1 pts)) @
                     map LineTo (map (\<lambda>p. mapToSVG s p rng)
                       (tl (take (Suc (nat \<lfloor>real (length pts) * animationProgress s\<rfloor>)) pts))))"
proof (cases "\<lfloor>real (length pts) * animationProgress s\<rfloor> \<le> 0")
  case True
  with assms(1) show ?thesis by (simp add: createPath_def)
next
  case False
  define k where "k = nat \<lfloor>real (length pts) * animationProgress s\<rfloor>"
  have len: "0 < real (length pts)"
    using assms(1) by simp
  then have "real (length pts) * animationProgress s < real (length pts)"
    using assms(3) by simp
  then have "\<lfloor>real (length pts) * animationProgress s\<rfloor> < int (length pts)"
    by (simp add: floor_less_iff)
  then have k: "k < length pts"
    using False unfolding k_def by linarith
  then have "\<forall>i \<in> set [1..<Suc k]. i < length pts"
    by (auto simp del: upt_Suc)
  from createPath_loop_in_range [OF this]
  have "createPath s pts rng True =
      Inr ([MoveTo (mapToSVG s (pts ! 0) rng)] @
           map (\<lambda>i. LineTo (mapToSVG s (pts ! i) rng)) [1..<Suc k])"
    using False assms(1) by (simp add: createPath_def k_def del: upt_Suc)
  moreover have "tl (take (Suc k) pts) = map (\<lambda>i. pts ! i) [1..<Suc k]"
    using take_Suc_nth_upt [OF k] by simp
  moreover have "take 1 pts = [pts ! 0]"
    using assms(1) by (cases pts) simp_all
  ultimately show ?thesis
    using False by (simp add: k_def comp_def del: upt_Suc)
qed

text \<open>
  C4.  The claim covers every progress in \<open>[0, 1]\<close> and says that no index outside the
  samples is read.  At progress 1 the end index is the length of the array, the loop
  reads \<open>points[length]\<close>, and \<open>createPath\<close> throws a \<open>TypeError\<close>.
\<close>

theorem createPath_progress_one_throws:
  assumes "pts \<noteq> []" and "animationProgress s = 1"
  shows "createPath s pts rng True = Inl TypeError"
proof -
  have "\<lfloor>real (length pts) * animationProgress s\<rfloor> = int (length pts)"
    using assms(2) by simp
  moreover have "\<exists>i \<in> set [1..<Suc (length pts)]. length pts \<le> i"
    using assms(1) by (intro bexI [of _ "length pts"]) (simp_all del: upt_Suc add: Suc_le_eq)
  from createPath_loop_out_of_range [OF this]
  have "createPath_loop s pts rng [1..<Suc (length pts)]
          [MoveTo (mapToSVG s (pts ! 0) rng)] = Inl TypeError" .
  ultimately show ?thesis
    using assms(1) by (simp add: createPath_def del: upt_Suc)
qed

text \<open>
  C4 (witness).  A tick \<open>2.5\<close> seconds after the stored timestamp takes the progress
  from \<open>1/2\<close> to exactly 1; the animated path over two points then throws.
\<close>

theorem createPath_progress_one_throws_witness:
  "animationProgress
     (animate 3500 (initial_state\<lparr>animationProgress := 1 / 2, animationRef := Some 1000\<rparr>)) = 1 \<and>
   createPath
     (animate 3500 (initial_state\<lparr>animationProgress := 1 / 2, animationRef := Some 1000\<rparr>))
     [\<lparr>pt_x = 0, pt_y = Num (Fin 0)\<rparr>, \<lparr>pt_x = 1, pt_y = Num (Fin 1)\<rparr>] (- 10, 10) True
     = Inl TypeError"
proof -
  let ?s = "animate 3500 (initial_state\<lparr>animationProgress := 1 / 2, animationRef := Some 1000\<rparr>)"
  have one: "animationProgress ?s = 1"
    by (simp add: animate_def initial_state_def)
  have "[\<lparr>pt_x = 0, pt_y = Num (Fin 0)\<rparr>, \<lparr>pt_x = 1, pt_y = Num (Fin 1)\<rparr>] \<noteq> []"
    by simp
  from createPath_progress_one_throws [OF this one] one show ?thesis
    by blast
qed

subsection \<open>A run of ticks\<close>

text \<open>
  Ticks at non-decreasing timestamps, none before the stored one, keep the progress in
  \<open>[0, 1]\<close>.
\<close>

lemma animate_unit_interval:
  assumes "0 \<le> animationProgress s" and "animationProgress s \<le> 1"
    and "0 < animationSpeed s"
    and "case animationRef s of None \<Rightarrow> True | Some r \<Rightarrow> r \<le> timestamp"
  shows "0 \<le> animationProgress (animate timestamp s)"
    and "animationProgress (animate timestamp s) \<le> 1"
proof -
  define elapsed where
    "elapsed = timestamp - (case animationRef s of
                              None \<Rightarrow> timestamp
                            | Some r \<Rightarrow> if r = 0 then timestamp else r)"
  have "0 \<le> elapsed"
    using assms(4) by (simp add: elapsed_def split: option.splits)
  then have step: "0 \<le> elapsed / (5000 / animationSpeed s)"
    using assms(3) by simp
  have eq: "animationProgress (animate timestamp s) =
      (if animationProgress s + elapsed / (5000 / animationSpeed s) > 1 then 0
       else animationProgress s + elapsed / (5000 / animationSpeed s))"
    by (simp add: animate_def elapsed_def Let_def)
  show "0 \<le> animationProgress (animate timestamp s)"
    unfolding eq using assms(1) step by simp
  show "animationProgress (animate timestamp s) \<le> 1"
    unfolding eq by simp
qed

lemma animate_ticks_unit_interval:
  assumes "sorted ts"
    and "\<forall>t \<in> set ts. case animationRef s of None \<Rightarrow> True | Some r \<Rightarrow> r \<le> t"
    and "0 \<le> animationProgress s" and "animationProgress s \<le> 1"
    and "0 < animationSpeed s"
  shows "0 \<le> animationProgress (fold animate ts s) \<and>
         animationProgress (fold animate ts s) \<le> 1"
  using assms
proof (induction ts arbitrary: s)
  case Nil
  then show ?case by simp
next
  case (Cons t ts)
  have first: "case animationRef s of None \<Rightarrow> True | Some r \<Rightarrow> r \<le> t"
    using Cons.prems(2) by simp
  have "0 \<le> animationProgress (animate t s)" and "animationProgress (animate t s) \<le> 1"
    using Cons.prems(3,4,5) first by (rule animate_unit_interval)+
  moreover have "animationSpeed (animate t s) = animationSpeed s"
    and "animationRef (animate t s) = Some t"
    by (simp_all add: animate_def Let_def)
  moreover have "sorted ts" and "\<forall>t' \<in> set ts. t \<le> t'"
    using Cons.prems(1) by simp_all
  ultimately have "0 \<le> animationProgress (fold animate ts (animate t s)) \<and>
      animationProgress (fold animate ts (animate t s)) \<le> 1"
    using Cons.prems(5) by (intro Cons.IH) simp_all
  then show ?case by simp
qed

subsection \<open>Pointer, tangent segment and zoom\<close>

text \<open>
  When the pointer maps to an \<open>x\<close> inside the effective range, \<open>handleMouseMove\<close>
  highlights the point at that \<open>x\<close>, with the value of the expression and the numerical
  derivative there, whatever they are: nothing is filtered.
\<close>

lemma handleMouseMove_highlight:
  assumes "points s \<noteq> []" and "\<not> isDragging s"
    and "handleMouseMove_x rnd s mouseX = Fin x"
    and "fst (getEffectiveViewRange rnd s) \<le> x" and "x \<le> snd (getEffectiveViewRange rnd s)"
  shows "\<exists>y dy. safeEval ev (customFunction s) x = Inr y \<and>
           numericalDerivative ev (customFunction s) x numericalDerivative_h = Inr dy \<and>
           handleMouseMove rnd ev mouseX s =
             Inr (s\<lparr>highlighted := True, highlightPoint := \<lparr>hl_x = x, hl_y = y, hl_dy = dy\<rparr>\<rparr>)"
proof -
  obtain y where y: "safeEval ev (customFunction s) x = Inr y"
    using safeEval_Inr by blast
  obtain dy where dy: "numericalDerivative ev (customFunction s) x numericalDerivative_h = Inr dy"
    using numericalDerivative_Inr by blast
  from assms y dy show ?thesis
    by (simp add: handleMouseMove_def)
qed

text \<open>
  For a finite value and a finite slope the two end points of the tangent segment lie on
  the line \<open>slope * x + (y0 - slope * x0)\<close>.  A slope that is not finite is used as it
  is.
\<close>

lemma tangentSegment_on_line:
  assumes "highlighted s" and "\<not> isAnimating s"
    and "highlightPoint s = \<lparr>hl_x = x0, hl_y = Num (Fin y0), hl_dy = Fin slope\<rparr>"
  shows "tangentSegment rnd s =
           Some (mapToSVG s
                   \<lparr>pt_x = x0 - 2, pt_y = Num (Fin (slope * (x0 - 2) + (y0 - slope * x0)))\<rparr>
                   (getEffectiveViewRange rnd s),
                 Some (mapToSVG s
                   \<lparr>pt_x = x0 + 2, pt_y = Num (Fin (slope * (x0 + 2) + (y0 - slope * x0)))\<rparr>
                   (getEffectiveViewRange rnd s)))"
proof -
  have e1: "Fin (y0 - slope * 2) = Fin (slope * (x0 - 2) + (y0 - slope * x0))"
    and e2: "Fin (y0 + slope * 2) = Fin (slope * (x0 + 2) + (y0 - slope * x0))"
    by (simp_all add: algebra_simps)
  have "tangentSegment rnd s =
      Some (mapToSVG s \<lparr>pt_x = x0 - 2, pt_y = Num (Fin (y0 - slope * 2))\<rparr>
              (getEffectiveViewRange rnd s),
            Some (mapToSVG s \<lparr>pt_x = x0 + 2, pt_y = Num (Fin (y0 + slope * 2))\<rparr>
              (getEffectiveViewRange rnd s)))"
    using assms by (simp add: tangentSegment_def js_sub_def Let_def)
  then show ?thesis
    unfolding e1 e2 .
qed

text \<open>
  The zoom handlers keep the zoom level inside \<open>[0.5, 5]\<close>: the wheel handler whatever
  the rounding, the buttons because the rounding is monotone and \<open>0.5\<close> is a double.
\<close>

lemma binary64_half: "binary64 (1 / 2) = 1 / 2"
proof -
  have "binary64 (1 / 2) = 4503599627370496 / 2 ^ 53"
    by (rule binary64_valueI [of _ 4503599627370496 53]) (simp_all add: rne_def Let_def)
  then show ?thesis by simp
qed

lemma zoom_handlers_clamped:
  "1 / 2 \<le> zoomLevel (handleWheel rnd deltaY s) \<and> zoomLevel (handleWheel rnd deltaY s) \<le> 5"
  "1 / 2 \<le> zoomLevel s \<Longrightarrow>
     1 / 2 \<le> zoomLevel (handleZoomIn binary64 s) \<and> zoomLevel (handleZoomIn binary64 s) \<le> 5"
  "zoomLevel s \<le> 5 \<Longrightarrow>
     1 / 2 \<le> zoomLevel (handleZoomOut binary64 s) \<and> zoomLevel (handleZoomOut binary64 s) \<le> 5"
  "zoomLevel (handleResetView s) = 1"
proof -
  show "1 / 2 \<le> zoomLevel (handleWheel rnd deltaY s) \<and>
      zoomLevel (handleWheel rnd deltaY s) \<le> 5"
    by (simp add: handleWheel_def Let_def)
  show "zoomLevel (handleResetView s) = 1"
    by (simp add: handleResetView_def)
  show "1 / 2 \<le> zoomLevel (handleZoomIn binary64 s) \<and> zoomLevel (handleZoomIn binary64 s) \<le> 5"
    if "1 / 2 \<le> zoomLevel s"
  proof -
    have "binary64 (1 / 2) \<le> binary64 (zoomLevel s + 1 / 4)"
      using that by (intro binary64_mono) simp
    then show ?thesis
      by (simp add: handleZoomIn_def binary64_half)
  qed
  show "1 / 2 \<le> zoomLevel (handleZoomOut binary64 s) \<and>
      zoomLevel (handleZoomOut binary64 s) \<le> 5"
    if "zoomLevel s \<le> 5"
  proof -
    have "binary64 (zoomLevel s - 1 / 4) \<le> binary64 5"
      using that by (intro binary64_mono) simp
    moreover have "binary64 5 = 5629499534213120 / 2 ^ 50"
      by (rule binary64_valueI [of _ 5629499534213120 50]) (simp_all add: rne_def Let_def)
    ultimately show ?thesis
      by (simp add: handleZoomOut_def)
  qed
qed

end
